theory Spec2Isabelle
  imports Main "HOL-Library.AList"
begin

section \<open>The path functions of the standard library (POSIX flavour)\<close>

text \<open>
  The browser builds every path with \<open>os.path\<close>. The functions below follow the
  POSIX implementation of that module (\<open>posixpath\<close>): the separator is \<open>/\<close>, a
  string is a list of characters, and the working directory that \<open>abspath\<close> consults
  is an explicit argument.
\<close>

definition sep :: char where
  "sep = CHR ''/''"

definition startswith :: "string \<Rightarrow> string \<Rightarrow> bool" where
  "startswith p x = (take (length x) p = x)"

definition endswith :: "string \<Rightarrow> string \<Rightarrow> bool" where
  "endswith p x = (length x \<le> length p \<and> drop (length p - length x) p = x)"

text \<open>\<open>basename p\<close> is what follows the last separator of \<open>p\<close>.\<close>

definition basename :: "string \<Rightarrow> string" where
  "basename p = rev (takeWhile (\<lambda>c. c \<noteq> sep) (rev p))"

text \<open>
  \<open>dirname p\<close> is what precedes the basename, its trailing separators removed unless it
  consists of separators only.
\<close>

definition rstrip_sep :: "string \<Rightarrow> string" where
  "rstrip_sep p = rev (dropWhile (\<lambda>c. c = sep) (rev p))"

definition dirname :: "string \<Rightarrow> string" where
  "dirname p =
     (let head = rev (dropWhile (\<lambda>c. c \<noteq> sep) (rev p))
      in if head \<noteq> [] \<and> head \<noteq> replicate (length head) sep then rstrip_sep head else head)"

text \<open>\<open>join a b\<close>, for two arguments, as every call of the browser has it.\<close>

definition join :: "string \<Rightarrow> string \<Rightarrow> string" where
  "join a b =
     (if startswith b [sep] then b
      else if a = [] \<or> endswith a [sep] then a @ b
      else a @ [sep] @ b)"

fun split_sep :: "string \<Rightarrow> string list" where
  "split_sep [] = [[]]"
| "split_sep (c # cs) =
     (if c = sep then [] # split_sep cs
      else (case split_sep cs of [] \<Rightarrow> [[c]] | w # ws \<Rightarrow> (c # w) # ws))"

fun sep_join :: "string list \<Rightarrow> string" where
  "sep_join [] = []"
| "sep_join [x] = x"
| "sep_join (x # y # ys) = x @ [sep] @ sep_join (y # ys)"

text \<open>One round of the loop of \<open>normpath\<close> over the components of the path.\<close>

definition norm_step :: "bool \<Rightarrow> string list \<Rightarrow> string \<Rightarrow> string list" where
  "norm_step initial_slashes new_comps part =
     (if part = [] \<or> part = ''.'' then new_comps
      else if part \<noteq> ''..'' \<or> (\<not> initial_slashes \<and> new_comps = [])
              \<or> (new_comps \<noteq> [] \<and> last new_comps = ''..'')
        then new_comps @ [part]
      else if new_comps \<noteq> [] then butlast new_comps
      else new_comps)"

definition normpath :: "string \<Rightarrow> string" where
  "normpath p =
     (if p = [] then ''.''
      else
        let initial_slashes =
              (if startswith p [sep]
               then (if startswith p [sep, sep] \<and> \<not> startswith p [sep, sep, sep]
                     then 2 else 1)
               else (0::nat));
            comps = foldl (norm_step (initial_slashes \<noteq> 0)) [] (split_sep p);
            res = replicate initial_slashes sep @ sep_join comps
        in if res = [] then ''.'' else res)"

definition isabs :: "string \<Rightarrow> bool" where
  "isabs p = startswith p [sep]"

definition abspath :: "string \<Rightarrow> string \<Rightarrow> string" where
  "abspath cwd p = normpath (if isabs p then p else join cwd p)"

text \<open>The extension that \<open>splitext\<close> returns as its second component.\<close>

definition splitext_ext :: "string \<Rightarrow> string" where
  "splitext_ext p =
     (let b = basename p;
          e = rev (takeWhile (\<lambda>c. c \<noteq> CHR ''.'') (rev b));
          stem = take (length b - length e - 1) b
      in if CHR ''.'' \<notin> set b then []
         else if stem = replicate (length stem) (CHR ''.'') then []
         else CHR ''.'' # e)"

fun commonprefix_len :: "string list \<Rightarrow> string list \<Rightarrow> nat" where
  "commonprefix_len (x # xs) (y # ys) = (if x = y then Suc (commonprefix_len xs ys) else 0)"
| "commonprefix_len _ _ = 0"

text \<open>
  \<open>relpath\<close> raises \<open>ValueError\<close> on the empty path, here the value \<open>None\<close>.
\<close>

definition relpath :: "string \<Rightarrow> string \<Rightarrow> string \<Rightarrow> string option" where
  "relpath cwd p start =
     (if p = [] then None
      else
        let start_list = filter (\<lambda>x. x \<noteq> []) (split_sep (abspath cwd start));
            path_list = filter (\<lambda>x. x \<noteq> []) (split_sep (abspath cwd p));
            i = commonprefix_len start_list path_list;
            rel_list = replicate (length start_list - i) ''..'' @ drop i path_list
        in if rel_list = [] then Some ''.''
           else Some (foldl join (hd rel_list) (tl rel_list)))"


section \<open>Nodes, the object store and the environment\<close>

text \<open>
  Python objects are shared and mutated in place: a child holds a reference to its
  parent, a directory holds a reference to its \<open>children\<close> dict, and \<open>absorb\<close> makes
  two directories share one dict. Objects therefore live in a store: \<open>nodes\<close> maps the
  address of an object to its attributes, \<open>dicts\<close> maps the reference of a children dict
  to its items, in insertion order. Addresses below \<open>next_addr\<close> (references below
  \<open>next_dref\<close>) are the allocated ones.
\<close>

type_synonym addr = nat
type_synonym dref = nat
type_synonym ctx = nat
type_synonym bytes = "char list"

datatype cls =
    Path | DirPath | FilePath | TextFile | BinaryFile | VirtualDirPath
  | ArchivePath | Py7zrArchivePath | ImageFile | GenericFile | TermuxGenericFile

text \<open>\<open>isinstance\<close> along the class hierarchy of the source.\<close>

definition is_DirPath :: "cls \<Rightarrow> bool" where
  "is_DirPath c = (c \<in> {DirPath, VirtualDirPath, ArchivePath, Py7zrArchivePath})"

definition is_VirtualDirPath :: "cls \<Rightarrow> bool" where
  "is_VirtualDirPath c = (c \<in> {VirtualDirPath, ArchivePath, Py7zrArchivePath})"

definition is_ArchivePath :: "cls \<Rightarrow> bool" where
  "is_ArchivePath c = (c \<in> {ArchivePath, Py7zrArchivePath})"

definition is_Py7zrArchivePath :: "cls \<Rightarrow> bool" where
  "is_Py7zrArchivePath c = (c = Py7zrArchivePath)"

datatype error =
    AttributeError | KeyError | TypeError | IndexError | ValueError | RecursionError
  | UnicodeDecodeError | PasswordRequired | LZMAError | ArchiveError string

datatype warning =
    UnexpectedSituationWarning string
  | UnsupportedOperationWarning string
  | IncorrectFileTypeWarning string

type_synonym 'a result = "error + 'a"

text \<open>
  What the archive library hands over: the entries of the header (\<open>filename\<close> and
  \<open>folder\<close>, which is \<open>None\<close> for an entry without a data stream) and the bytes stored
  under each internal name.
\<close>

record entry =
  filename :: string
  folder :: "nat option"

record archive =
  files_info :: "entry list"
  stored :: "(string \<times> bytes) list"

datatype source = FromPath string | FromBytes bytes

record node =
  cls :: cls
  name :: string
  parent :: "addr option"
  backend :: string
  path_type :: string
  path :: "string option"
  context_list :: "ctx option"
  children :: dref
  is_anchor :: bool
  anchor :: "string option"
  child_data :: "(string \<times> bytes) list"
  archive_file :: "archive option"

text \<open>
  The \<open>Terminal\<close> that every context list holds: its two type tables, the current
  directory, the temporary files to clean up, and what it has shown to the user (the
  password prompts issued and the messages printed by \<open>error\<close>).
\<close>

record terminal =
  file_map :: "(string \<times> cls \<times> string list) list"
  dir_map :: "(string \<times> cls \<times> string list) list"
  current :: addr
  tempfiles :: "string list"
  prompted :: "string list"
  printed :: "string list"

text \<open>
  The rest of the world: the working directory, the warnings issued so far, the files
  written to disk, the names \<open>mkstemp\<close> picks (for the i-th temporary file and a
  suffix) and how many it has made, how bytes decode as UTF-8 (\<open>None\<close> is a
  \<open>UnicodeDecodeError\<close>), what the user answers to the i-th password prompt, and what
  \<open>py7zr.SevenZipFile\<close> does with a source and a password.
\<close>

record state =
  nodes :: "addr \<Rightarrow> node"
  dicts :: "dref \<Rightarrow> (string \<times> addr) list"
  next_addr :: addr
  next_dref :: dref
  terminal_obj :: terminal
  cwd :: string
  warned :: "warning list"
  disk :: "string \<Rightarrow> bytes option"
  mkstemp_name :: "nat \<Rightarrow> string \<Rightarrow> string"
  mkstemp_count :: nat
  decode_utf8 :: "bytes \<Rightarrow> string option"
  answers :: "nat \<Rightarrow> string"
  SevenZipFile :: "source \<Rightarrow> string option \<Rightarrow> archive result"

type_synonym 'a action = "state \<Rightarrow> 'a result \<times> state"

definition ret :: "'a \<Rightarrow> 'a action" where
  "ret x s = (Inr x, s)"

definition raise :: "error \<Rightarrow> 'a action" where
  "raise e s = (Inl e, s)"

text \<open>Sequencing: an exception ends the run and leaves the store as it was then.\<close>

definition bnd :: "'a action \<Rightarrow> ('a \<Rightarrow> 'b action) \<Rightarrow> 'b action" where
  "bnd m f s = (case m s of (Inl e, s') \<Rightarrow> (Inl e, s') | (Inr x, s') \<Rightarrow> f x s')"

definition upd :: "addr \<Rightarrow> (node \<Rightarrow> node) \<Rightarrow> state \<Rightarrow> state" where
  "upd a f s = s\<lparr>nodes := (nodes s)(a := f (nodes s a))\<rparr>"

definition warn :: "warning list \<Rightarrow> state \<Rightarrow> state" where
  "warn ws s = s\<lparr>warned := warned s @ ws\<rparr>"

section \<open>Path and DirPath\<close>

subsection \<open>Accessors and setters\<close>

definition get_name :: "state \<Rightarrow> addr \<Rightarrow> string" where
  "get_name s self = name (nodes s self)"

definition get_parent :: "state \<Rightarrow> addr \<Rightarrow> addr option" where
  "get_parent s self = parent (nodes s self)"

definition get_backend :: "state \<Rightarrow> addr \<Rightarrow> string" where
  "get_backend s self = backend (nodes s self)"

definition get_type :: "state \<Rightarrow> addr \<Rightarrow> string" where
  "get_type s self = path_type (nodes s self)"

definition set_name :: "addr \<Rightarrow> string \<Rightarrow> state \<Rightarrow> state" where
  "set_name self nm = upd self (\<lambda>n. n\<lparr>name := nm\<rparr>)"

definition set_parent :: "addr \<Rightarrow> addr option \<Rightarrow> state \<Rightarrow> state" where
  "set_parent self par = upd self (\<lambda>n. n\<lparr>parent := par\<rparr>)"

text \<open>\<open>get_children\<close> exists on directories only.\<close>

definition get_children :: "state \<Rightarrow> addr \<Rightarrow> dref result" where
  "get_children s self =
     (if is_DirPath (cls (nodes s self)) then Inr (children (nodes s self))
      else Inl AttributeError)"

subsection \<open>The mapping interface of a directory\<close>

definition DirPath_getitem :: "state \<Rightarrow> addr \<Rightarrow> string \<Rightarrow> addr option result" where
  "DirPath_getitem s self key =
     (if key = ''.'' then Inr (Some self)
      else if key = ''..'' then Inr (get_parent s self)
      else (case map_of (dicts s (children (nodes s self))) key of
              None \<Rightarrow> Inl KeyError
            | Some v \<Rightarrow> Inr (Some v)))"

definition DirPath_iter :: "state \<Rightarrow> addr \<Rightarrow> string list" where
  "DirPath_iter s self = map fst (dicts s (children (nodes s self)))"

definition DirPath_len :: "state \<Rightarrow> addr \<Rightarrow> nat" where
  "DirPath_len s self = length (dicts s (children (nodes s self)))"

definition DirPath_contains :: "state \<Rightarrow> addr \<Rightarrow> string \<Rightarrow> bool" where
  "DirPath_contains s self item = (item \<in> fst ` set (dicts s (children (nodes s self))))"

definition DirPath_delitem :: "addr \<Rightarrow> string \<Rightarrow> unit action" where
  "DirPath_delitem self key s =
     (let r = children (nodes s self)
      in if key \<in> fst ` set (dicts s r)
         then (Inr (), s\<lparr>dicts := (dicts s)(r := AList.delete key (dicts s r))\<rparr>)
         else (Inl KeyError, s))"

text \<open>\<open>list(self.values())[0]\<close>: the value under the first key, read through \<open>self[key]\<close>.\<close>

definition first_value :: "state \<Rightarrow> addr \<Rightarrow> addr option result" where
  "first_value s self =
     (case dicts s (children (nodes s self)) of
        [] \<Rightarrow> Inl IndexError
      | (k, v) # rest \<Rightarrow> DirPath_getitem s self k)"

subsection \<open>get-path\<close>

text \<open>
  \<open>get_path\<close> returns a string or raises, and may issue a warning on the way. The call
  on the parent or on a child is a method call on another object, dispatched on its
  class; the first argument bounds the depth of such calls, as the interpreter does
  (\<open>RecursionError\<close>).
\<close>

type_synonym path_result = "string result \<times> warning list"

definition Path_get_path :: "(addr \<Rightarrow> path_result) \<Rightarrow> state \<Rightarrow> addr \<Rightarrow> path_result" where
  "Path_get_path call s self =
     (let n = nodes s self in
      case path n of
        Some p \<Rightarrow> (Inr p, [])
      | None \<Rightarrow>
          if parent n = None \<and> backend n = ''fs'' then (Inr (abspath (cwd s) (name n)), [])
          else (case parent n of
                  None \<Rightarrow>
                    (Inr (name n),
                     [UnexpectedSituationWarning
                        ''get_path() was called on a non-filesystem backed Path with no parent''])
                | Some par \<Rightarrow>
                    (case call par of
                       (Inl e, ws) \<Rightarrow> (Inl e, ws)
                     | (Inr pp, ws) \<Rightarrow> (Inr (join pp (name n)), ws))))"

definition DirPath_get_path :: "(addr \<Rightarrow> path_result) \<Rightarrow> state \<Rightarrow> addr \<Rightarrow> path_result" where
  "DirPath_get_path call s self =
     (let n = nodes s self in
      case path n of
        Some p \<Rightarrow> (Inr p, [])
      | None \<Rightarrow>
          if parent n = None \<and> dicts s (children n) = []
          then (Inr (abspath (cwd s) (name n)), [])
          else (case parent n of
                  Some par \<Rightarrow>
                    (case call par of
                       (Inl e, ws) \<Rightarrow> (Inl e, ws)
                     | (Inr pp, ws) \<Rightarrow> (Inr (join pp (name n)), ws))
                | None \<Rightarrow>
                    (case first_value s self of
                       Inl e \<Rightarrow> (Inl e, [])
                     | Inr None \<Rightarrow> (Inl AttributeError, [])
                     | Inr (Some child) \<Rightarrow>
                         (case call child of
                            (Inl e, ws) \<Rightarrow> (Inl e, ws)
                          | (Inr cp, ws) \<Rightarrow> (Inr (dirname cp), ws)))))"

primrec get_path :: "nat \<Rightarrow> state \<Rightarrow> addr \<Rightarrow> path_result" where
  "get_path 0 s self = (Inl RecursionError, [])"
| "get_path (Suc d) s self =
     (if is_DirPath (cls (nodes s self)) then DirPath_get_path (get_path d s) s self
      else Path_get_path (get_path d s) s self)"

definition get_path_st :: "nat \<Rightarrow> addr \<Rightarrow> string action" where
  "get_path_st d self s = (case get_path d s self of (r, ws) \<Rightarrow> (r, warn ws s))"

subsection \<open>absorb and item assignment\<close>

definition Path_absorb :: "nat \<Rightarrow> addr \<Rightarrow> addr \<Rightarrow> unit action" where
  "Path_absorb d self other s0 =
     (let s1 = upd self (\<lambda>n. n\<lparr>name := get_name s0 other\<rparr>) s0;
          s2 = upd self (\<lambda>n. n\<lparr>parent := get_parent s1 other\<rparr>) s1
      in bnd (get_path_st d other)
           (\<lambda>p s3.
              let s4 = upd self (\<lambda>n. n\<lparr>backend := p\<rparr>) s3;
                  s5 = upd self (\<lambda>n. n\<lparr>path_type := get_type s4 other\<rparr>) s4
              in (Inr (), s5))
           s2)"

definition DirPath_absorb :: "nat \<Rightarrow> addr \<Rightarrow> addr \<Rightarrow> unit action" where
  "DirPath_absorb d self other =
     bnd (Path_absorb d self other)
       (\<lambda>_ s. case get_children s other of
                 Inl e \<Rightarrow> (Inl e, s)
               | Inr r \<Rightarrow> (Inr (), upd self (\<lambda>n. n\<lparr>children := r\<rparr>) s))"

definition DirPath_setitem :: "nat \<Rightarrow> addr \<Rightarrow> string \<Rightarrow> addr \<Rightarrow> unit action" where
  "DirPath_setitem d self key v s =
     (if key = ''.'' then DirPath_absorb d self v s
      else if key = ''..'' then (Inr (), set_parent self (Some v) s)
      else (let r = children (nodes s self)
            in (Inr (), s\<lparr>dicts := (dicts s)(r := AList.update key v (dicts s r))\<rparr>)))"

text \<open>\<open>all()\<close>: a copy of the children with the two synthetic entries added.\<close>

definition DirPath_all :: "state \<Rightarrow> addr \<Rightarrow> (string \<times> addr option) list" where
  "DirPath_all s self =
     AList.update ''..'' (get_parent s self)
       (AList.update ''.'' (Some self)
          (map (\<lambda>(k, v). (k, Some v)) (dicts s (children (nodes s self)))))"


subsection \<open>Construction\<close>

text \<open>
  \<open>Cls(...)\<close> allocates an object and runs \<open>__init__\<close> on it. The initialisers below
  take the address of the object under construction and assign its attributes in the
  order of the source, so that \<open>get_path\<close> runs on the half-built object exactly as it
  does there.
\<close>

definition blank :: "cls \<Rightarrow> node" where
  "blank c =
     \<lparr>cls = c, name = [], parent = None, backend = [], path_type = [], path = None,
      context_list = None, children = 0, is_anchor = False, anchor = None,
      child_data = [], archive_file = None\<rparr>"

definition new_object :: "cls \<Rightarrow> state \<Rightarrow> addr \<times> state" where
  "new_object c s =
     (next_addr s,
      s\<lparr>nodes := (nodes s)(next_addr s := blank c), next_addr := Suc (next_addr s)\<rparr>)"

definition new_dict :: "(string \<times> addr) list \<Rightarrow> state \<Rightarrow> dref \<times> state" where
  "new_dict items s =
     (next_dref s,
      s\<lparr>dicts := (dicts s)(next_dref s := items), next_dref := Suc (next_dref s)\<rparr>)"

definition mk :: "cls \<Rightarrow> (addr \<Rightarrow> unit action) \<Rightarrow> addr action" where
  "mk c init s =
     (case new_object c s of
        (self, s1) \<Rightarrow>
          (case init self s1 of
             (Inl e, s2) \<Rightarrow> (Inl e, s2)
           | (Inr u, s2) \<Rightarrow> (Inr self, s2)))"

definition Path_set_context :: "addr \<Rightarrow> ctx option \<Rightarrow> unit action" where
  "Path_set_context self cx s =
     (let n = nodes s self in
      if cx = None \<and> context_list n = None then
        (case parent n of
           None \<Rightarrow> (Inr (), s)
         | Some par \<Rightarrow>
             (Inr (), upd self (\<lambda>n. n\<lparr>context_list := context_list (nodes s par)\<rparr>) s))
      else if context_list n = None then (Inr (), upd self (\<lambda>n. n\<lparr>context_list := cx\<rparr>) s)
      else (case cx of None \<Rightarrow> (Inl TypeError, s) | Some c \<Rightarrow> (Inr (), s)))"

definition DirPath_set_context :: "addr \<Rightarrow> ctx option \<Rightarrow> unit action" where
  "DirPath_set_context self cx s =
     (let n = nodes s self in
      if cx = None \<and> context_list n = None then
        (case parent n of
           Some par \<Rightarrow>
             (Inr (), upd self (\<lambda>n. n\<lparr>context_list := context_list (nodes s par)\<rparr>) s)
         | None \<Rightarrow>
             if dicts s (children n) \<noteq> [] then
               (case first_value s self of
                  Inl e \<Rightarrow> (Inl e, s)
                | Inr None \<Rightarrow> (Inl AttributeError, s)
                | Inr (Some child) \<Rightarrow>
                    (Inr (),
                     upd self (\<lambda>n. n\<lparr>context_list := context_list (nodes s child)\<rparr>) s))
             else (Inr (), s))
      else if context_list n = None then (Inr (), upd self (\<lambda>n. n\<lparr>context_list := cx\<rparr>) s)
      else (case cx of None \<Rightarrow> (Inl TypeError, s) | Some c \<Rightarrow> (Inr (), s)))"

definition set_context :: "addr \<Rightarrow> ctx option \<Rightarrow> unit action" where
  "set_context self cx s =
     (if is_DirPath (cls (nodes s self)) then DirPath_set_context self cx s
      else Path_set_context self cx s)"

definition Path_init ::
  "nat \<Rightarrow> addr \<Rightarrow> string \<Rightarrow> addr option \<Rightarrow> string \<Rightarrow> string \<Rightarrow> ctx option \<Rightarrow> unit action" where
  "Path_init d self nm par be pt cx s0 =
     (let s1 = upd self
                 (\<lambda>n. n\<lparr>name := basename nm, parent := par, backend := be, path_type := pt\<rparr>) s0;
          s2 = upd self
                 (\<lambda>n. n\<lparr>path := (if name n = nm then None else Some (abspath (cwd s1) nm))\<rparr>) s1
      in bnd (get_path_st d self)
           (\<lambda>p s3.
              let s4 = upd self (\<lambda>n. n\<lparr>path := Some p\<rparr>) s3;
                  s5 = upd self (\<lambda>n. n\<lparr>context_list := cx\<rparr>) s4
              in set_context self cx s5)
           s2)"

datatype children_arg = NoChildren | ChildList "addr list" | ChildDict dref | OneChild addr

definition init_children :: "addr \<Rightarrow> children_arg \<Rightarrow> state \<Rightarrow> state" where
  "init_children self ch s =
     (case ch of
        NoChildren \<Rightarrow>
          (case new_dict [] s of (r, s1) \<Rightarrow> upd self (\<lambda>n. n\<lparr>children := r\<rparr>) s1)
      | ChildList items \<Rightarrow>
          (case new_dict (foldl (\<lambda>al item. AList.update (get_name s item) item al) [] items) s of
             (r, s1) \<Rightarrow> upd self (\<lambda>n. n\<lparr>children := r\<rparr>) s1)
      | ChildDict r \<Rightarrow> upd self (\<lambda>n. n\<lparr>children := r\<rparr>) s
      | OneChild c \<Rightarrow>
          (case new_dict [(get_name s c, c)] s of
             (r, s1) \<Rightarrow> upd self (\<lambda>n. n\<lparr>children := r\<rparr>) s1))"

definition DirPath_init ::
  "nat \<Rightarrow> addr \<Rightarrow> string \<Rightarrow> addr option \<Rightarrow> string \<Rightarrow> string \<Rightarrow> children_arg \<Rightarrow> ctx option
     \<Rightarrow> unit action" where
  "DirPath_init d self nm par be pt ch cx s0 =
     bnd (Path_init d self nm par be pt cx)
       (\<lambda>_ s. if name (nodes s self) = ''..'' \<and> dicts s (children (nodes s self)) \<noteq> []
               then bnd (get_path_st d self)
                      (\<lambda>p s'. (Inr (), upd self (\<lambda>n. n\<lparr>name := basename p\<rparr>) s')) s
               else (Inr (), s))
       (init_children self ch s0)"

definition VirtualDirPath_init ::
  "nat \<Rightarrow> addr \<Rightarrow> string \<Rightarrow> addr option \<Rightarrow> string \<Rightarrow> string \<Rightarrow> unit action" where
  "VirtualDirPath_init d self nm par be pt s0 =
     Path_init d self nm par be pt None (init_children self NoChildren s0)"

subsection \<open>ArchivePath\<close>

primrec get_anchor :: "nat \<Rightarrow> state \<Rightarrow> addr \<Rightarrow> path_result" where
  "get_anchor 0 s self = (Inl RecursionError, [])"
| "get_anchor (Suc d) s self =
     (let n = nodes s self in
      if \<not> is_ArchivePath (cls n) then (Inl AttributeError, [])
      else (case anchor n of
              Some a \<Rightarrow> (Inr a, [])
            | None \<Rightarrow>
                if is_anchor n then get_path (Suc d) s self
                else (case get_parent s self of
                        None \<Rightarrow> (Inl AttributeError, [])
                      | Some par \<Rightarrow> get_anchor d s par)))"

definition get_anchor_st :: "nat \<Rightarrow> addr \<Rightarrow> string action" where
  "get_anchor_st d self s = (case get_anchor d s self of (r, ws) \<Rightarrow> (r, warn ws s))"

definition set_is_anchor :: "addr \<Rightarrow> bool \<Rightarrow> state \<Rightarrow> state" where
  "set_is_anchor self b = upd self (\<lambda>n. n\<lparr>is_anchor := b\<rparr>)"

definition set_anchor :: "addr \<Rightarrow> string \<Rightarrow> state \<Rightarrow> state" where
  "set_anchor self a = upd self (\<lambda>n. n\<lparr>anchor := Some a\<rparr>)"

definition get_is_anchor :: "state \<Rightarrow> addr \<Rightarrow> bool" where
  "get_is_anchor s self = is_anchor (nodes s self)"

text \<open>
  \<open>ArchivePath.__init__\<close> passes the backend \<open>py7zr\<close> on, whatever its own argument.
\<close>

definition ArchivePath_init ::
  "nat \<Rightarrow> addr \<Rightarrow> string \<Rightarrow> addr option \<Rightarrow> string \<Rightarrow> bool \<Rightarrow> unit action" where
  "ArchivePath_init d self nm par pt ia =
     bnd (VirtualDirPath_init d self nm par ''py7zr'' pt)
       (\<lambda>_ s1.
          let s2 = upd self (\<lambda>n. n\<lparr>is_anchor := ia\<rparr>) s1
          in bnd (if ia then bnd (get_path_st d self) (\<lambda>p. ret (Some p)) else ret None)
               (\<lambda>a s3.
                  let s4 = upd self (\<lambda>n. n\<lparr>anchor := a\<rparr>) s3
                  in bnd (get_anchor_st d self)
                       (\<lambda>a' s5.
                          (Inr (),
                           upd self (\<lambda>n. n\<lparr>child_data := []\<rparr>)
                             (upd self (\<lambda>n. n\<lparr>anchor := Some a'\<rparr>) s5)))
                       s4)
               s2)"

definition Py7zrArchivePath_init ::
  "nat \<Rightarrow> addr \<Rightarrow> string \<Rightarrow> addr option \<Rightarrow> string \<Rightarrow> bool \<Rightarrow> unit action" where
  "Py7zrArchivePath_init d self nm par pt ia =
     bnd (ArchivePath_init d self nm par pt ia)
       (\<lambda>_ s. (Inr (), upd self (\<lambda>n. n\<lparr>archive_file := None\<rparr>) s))"

subsection \<open>The constructor calls of the program\<close>

text \<open>
  \<open>construct\<close> is the call \<open>mapping[path_type][0](name=..., parent=..., backend=...,
  path_type=..., **kwargs)\<close> of \<open>Terminal.add_path\<close>, for each class a type table can
  hold. A keyword the class does not accept, or a missing required one, is a
  \<open>TypeError\<close>. The file classes with a fixed type ignore \<open>path_type\<close>.
\<close>

definition construct ::
  "nat \<Rightarrow> cls \<Rightarrow> string \<Rightarrow> addr option \<Rightarrow> string \<Rightarrow> string \<Rightarrow> addr option \<Rightarrow> bool option
     \<Rightarrow> addr action" where
  "construct d c nm par be pt ch_kw ia_kw =
     (if c \<in> {Path, FilePath, GenericFile, TermuxGenericFile} then
        (if ch_kw \<noteq> None \<or> ia_kw \<noteq> None then raise TypeError
         else mk c (\<lambda>self. Path_init d self nm par be pt None))
      else if c \<in> {TextFile, BinaryFile, ImageFile} then
        (if ch_kw \<noteq> None \<or> ia_kw \<noteq> None then raise TypeError
         else mk c (\<lambda>self. Path_init d self nm par be
                              (if c = TextFile then ''text''
                               else if c = BinaryFile then ''binary'' else ''image'') None))
      else if c = DirPath then
        (if ia_kw \<noteq> None then raise TypeError
         else mk c (\<lambda>self. DirPath_init d self nm par be pt
                              (case ch_kw of None \<Rightarrow> NoChildren | Some x \<Rightarrow> OneChild x) None))
      else if c = VirtualDirPath then
        (if ch_kw \<noteq> None \<or> ia_kw \<noteq> None \<or> par = None then raise TypeError
         else mk c (\<lambda>self. VirtualDirPath_init d self nm par be pt))
      else if c = ArchivePath then
        (if ch_kw \<noteq> None \<or> par = None then raise TypeError
         else mk c (\<lambda>self. ArchivePath_init d self nm par pt
                              (case ia_kw of None \<Rightarrow> True | Some b \<Rightarrow> b)))
      else
        (if ch_kw \<noteq> None \<or> par = None then raise TypeError
         else mk c (\<lambda>self. Py7zrArchivePath_init d self nm par pt
                              (case ia_kw of None \<Rightarrow> True | Some b \<Rightarrow> b))))"

section \<open>The Terminal and the archive directories\<close>

subsection \<open>What the context offers\<close>

text \<open>
  \<open>get_context()\<close> returns the \<open>Terminal\<close> of the context list, or \<open>None\<close> for a node
  without one; a method call on \<open>None\<close> is an \<open>AttributeError\<close>.
\<close>

definition get_context :: "state \<Rightarrow> addr \<Rightarrow> ctx option" where
  "get_context s self = context_list (nodes s self)"

definition Terminal_error :: "string \<Rightarrow> state \<Rightarrow> state" where
  "Terminal_error msg s =
     s\<lparr>terminal_obj := (terminal_obj s)\<lparr>printed := printed (terminal_obj s) @ [msg]\<rparr>\<rparr>"

definition Terminal_password :: "string \<Rightarrow> state \<Rightarrow> string \<times> state" where
  "Terminal_password prompt s =
     (answers s (length (prompted (terminal_obj s))),
      s\<lparr>terminal_obj := (terminal_obj s)\<lparr>prompted := prompted (terminal_obj s) @ [prompt]\<rparr>\<rparr>)"

definition Terminal_add_tempfile :: "string \<Rightarrow> state \<Rightarrow> state" where
  "Terminal_add_tempfile nm s =
     s\<lparr>terminal_obj := (terminal_obj s)\<lparr>tempfiles := tempfiles (terminal_obj s) @ [nm]\<rparr>\<rparr>"

definition get_path_type :: "terminal \<Rightarrow> string \<Rightarrow> bool \<Rightarrow> string \<Rightarrow> string \<Rightarrow> string" where
  "get_path_type t p is_dir default_type default_dir_type =
     foldl (\<lambda>path_type (cand_type, c, exts).
              if splitext_ext p \<in> set exts then cand_type else path_type)
       (if is_dir then default_dir_type else default_type)
       (if is_dir then dir_map t else file_map t)"

text \<open>
  \<open>add_path\<close>: the table lookup comes first, then the constructor call, then the item
  assignment on the destination, which must be a directory to accept it.
\<close>

definition assign_item :: "nat \<Rightarrow> addr \<Rightarrow> string \<Rightarrow> addr \<Rightarrow> unit action" where
  "assign_item d dest key v s =
     (if is_DirPath (cls (nodes s dest)) then DirPath_setitem d dest key v s
      else (Inl TypeError, s))"

definition Terminal_add_path ::
  "nat \<Rightarrow> string \<Rightarrow> bool \<Rightarrow> string option \<Rightarrow> string \<Rightarrow> string \<Rightarrow> bool \<Rightarrow> string
     \<Rightarrow> addr option \<Rightarrow> bool option \<Rightarrow> unit action" where
  "Terminal_add_path d nm is_dir path_type_arg default_type default_dir_type as_parent be
       dest_arg ia_kw s =
     (let t = terminal_obj s;
          dest = (case dest_arg of None \<Rightarrow> current t | Some x \<Rightarrow> x);
          pt = (case path_type_arg of
                  None \<Rightarrow> get_path_type t nm is_dir default_type default_dir_type
                | Some x \<Rightarrow> x);
          mapping = (if is_dir then dir_map t else file_map t)
      in if as_parent \<and> be = ''fs'' then
           (case map_of mapping pt of
              None \<Rightarrow> (Inl KeyError, s)
            | Some (c, exts) \<Rightarrow>
                bnd (construct d c nm None be pt (Some dest) ia_kw)
                  (\<lambda>new. assign_item d dest ''..'' new) s)
         else if as_parent then
           (Inr (),
            warn [UnsupportedOperationWarning
                    ''Adding parent paths outside of the filesystem is unsupported at this time.'']
              s)
         else if be = ''fs'' then
           (case map_of mapping pt of
              None \<Rightarrow> (Inl KeyError, s)
            | Some (c, exts) \<Rightarrow>
                bnd (construct d c nm (Some dest) be pt None ia_kw)
                  (\<lambda>new. assign_item d dest (basename nm) new) s)
         else
           (case map_of mapping pt of
              None \<Rightarrow> (Inl KeyError, s)
            | Some (c, exts) \<Rightarrow>
                bnd (construct d c (basename nm) (Some dest) be pt None ia_kw)
                  (\<lambda>new. assign_item d dest (basename nm) new) s))"

subsection \<open>Reading a child of an archive directory\<close>

datatype opened = TempFile string | TextStream string | ByteStream bytes

text \<open>
  \<open>Py7zrArchivePath.v_open\<close>: the bytes of the entry are read from the archive once and
  kept in \<open>child_data\<close> under the requested name; then they go to a new temporary file
  or into a stream. \<open>pathlib.Path(...).as_posix()\<close> leaves the result of \<open>relpath\<close> as it
  is on a POSIX system.
\<close>

definition fetch_child_data :: "nat \<Rightarrow> addr \<Rightarrow> string \<Rightarrow> unit action" where
  "fetch_child_data d self p s0 =
     (if p \<in> fst ` set (child_data (nodes s0 self)) then (Inr (), s0)
      else
        bnd (get_path_st d self)
          (\<lambda>sp. bnd (get_anchor_st d self)
             (\<lambda>an s.
                case relpath (cwd s) (join sp p) an of
                  None \<Rightarrow> (Inl ValueError, s)
                | Some extract_path \<Rightarrow>
                    (case archive_file (nodes s self) of
                       None \<Rightarrow> (Inl AttributeError, s)
                     | Some ar \<Rightarrow>
                         (case map_of (stored ar) extract_path of
                            None \<Rightarrow> (Inl KeyError, s)
                          | Some data \<Rightarrow>
                              (Inr (),
                               upd self
                                 (\<lambda>n. n\<lparr>child_data := AList.update p data (child_data n)\<rparr>)
                                 s)))))
          s0)"

definition Py7zrArchivePath_v_open ::
  "nat \<Rightarrow> addr \<Rightarrow> string \<Rightarrow> bool \<Rightarrow> bool \<Rightarrow> opened action" where
  "Py7zrArchivePath_v_open d self p temp text =
     bnd (fetch_child_data d self p)
       (\<lambda>_ s.
          case map_of (child_data (nodes s self)) p of
            None \<Rightarrow> (Inl KeyError, s)
          | Some data \<Rightarrow>
              if temp then
                (let file = mkstemp_name s (mkstemp_count s) (splitext_ext p);
                     s1 = s\<lparr>disk := (disk s)(file \<mapsto> []), mkstemp_count := Suc (mkstemp_count s)\<rparr>
                 in case get_context s1 self of
                      None \<Rightarrow> (Inl AttributeError, s1)
                    | Some c \<Rightarrow>
                        (let s2 = Terminal_add_tempfile file s1
                         in (Inr (TempFile file), s2\<lparr>disk := (disk s2)(file \<mapsto> data)\<rparr>)))
              else if text then
                (case decode_utf8 s data of
                   None \<Rightarrow> (Inl UnicodeDecodeError, s)
                 | Some txt \<Rightarrow> (Inr (TextStream txt), s))
              else (Inr (ByteStream data), s))"

text \<open>
  \<open>parent.v_open(...)\<close> by the class of the parent: the stub of \<open>VirtualDirPath\<close>
  returns \<open>None\<close>, and other classes have no such method.
\<close>

definition v_open :: "nat \<Rightarrow> addr \<Rightarrow> string \<Rightarrow> bool \<Rightarrow> bool \<Rightarrow> opened option action" where
  "v_open d self p temp text s =
     (if is_Py7zrArchivePath (cls (nodes s self)) then
        bnd (Py7zrArchivePath_v_open d self p temp text) (\<lambda>r. ret (Some r)) s
      else if is_VirtualDirPath (cls (nodes s self)) then (Inr None, s)
      else (Inl AttributeError, s))"

subsection \<open>Opening the archive\<close>

text \<open>
  The loop \<open>for i in range(n)\<close> of \<open>get_archive_file\<close>: ask for a password, try to
  open with it, report a wrong one and go on. When the rounds are used up the method
  falls off its end and returns \<open>None\<close>. Any exception but \<open>LZMAError\<close> leaves the loop.
\<close>

fun password_rounds :: "nat \<Rightarrow> addr \<Rightarrow> source \<Rightarrow> archive option action" where
  "password_rounds 0 self file s = (Inr None, s)"
| "password_rounds (Suc n) self file s =
     (case get_context s self of
        None \<Rightarrow> (Inl AttributeError, s)
      | Some c \<Rightarrow>
          (case Terminal_password (get_name s self @ '' requires a password: '') s of
             (password, s1) \<Rightarrow>
               (case SevenZipFile s1 file (Some password) of
                  Inr ar \<Rightarrow> (Inr (Some ar), s1)
                | Inl LZMAError \<Rightarrow>
                    (case get_context s1 self of
                       None \<Rightarrow> (Inl AttributeError, s1)
                     | Some c' \<Rightarrow>
                         password_rounds n self file (Terminal_error ''Incorrect password.'' s1))
                | Inl e \<Rightarrow> (Inl e, s1))))"

text \<open>
  The two nested \<open>try\<close> blocks around the opening: \<open>PasswordRequired\<close> starts the three
  password rounds, and an \<open>ArchiveError\<close> from either stage is reported as a
  decompression error, after which the method returns \<open>None\<close>.
\<close>

definition open_archive :: "addr \<Rightarrow> source \<Rightarrow> archive option action" where
  "open_archive self file s =
     (case (case SevenZipFile s file None of
              Inr ar \<Rightarrow> (Inr (Some ar), s)
            | Inl PasswordRequired \<Rightarrow> password_rounds 3 self file s
            | Inl e \<Rightarrow> (Inl e, s)) of
        (Inl (ArchiveError msg), s1) \<Rightarrow>
          (case get_context s1 self of
             None \<Rightarrow> (Inl AttributeError, s1)
           | Some c \<Rightarrow> (Inr None, Terminal_error (''Decompression error: '' @ msg) s1))
      | r \<Rightarrow> r)"

primrec get_archive_file :: "nat \<Rightarrow> addr \<Rightarrow> archive option action" where
  "get_archive_file 0 self s = (Inl RecursionError, s)"
| "get_archive_file (Suc d) self s =
     (let n = nodes s self in
      if \<not> is_Py7zrArchivePath (cls n) then (Inl AttributeError, s)
      else (case archive_file n of
              Some ar \<Rightarrow> (Inr (Some ar), s)
            | None \<Rightarrow>
                if \<not> get_is_anchor s self then
                  (case parent n of
                     None \<Rightarrow> (Inl AttributeError, s)
                   | Some par \<Rightarrow> get_archive_file d par s)
                else
                  (case get_parent s self of
                     None \<Rightarrow> (Inl AttributeError, s)
                   | Some par \<Rightarrow>
                       if get_backend s par = ''fs'' then
                         bnd (get_path_st (Suc d) self)
                           (\<lambda>p. open_archive self (FromPath p)) s
                       else
                         bnd (v_open (Suc d) par (get_name s self) False False)
                           (\<lambda>r. case r of
                                   Some (ByteStream b) \<Rightarrow> open_archive self (FromBytes b)
                                 | _ \<Rightarrow> raise TypeError)
                           s)))"

subsection \<open>Listing the children\<close>

text \<open>The loop of \<open>filter_children\<close>, with the dict it builds as accumulator.\<close>

fun filter_children ::
  "nat \<Rightarrow> addr \<Rightarrow> entry list \<Rightarrow> (string \<times> entry) list \<Rightarrow> (string \<times> entry) list action" where
  "filter_children d self [] to_return s = (Inr to_return, s)"
| "filter_children d self (file # files) to_return s =
     bnd (get_path_st d self)
       (\<lambda>sp. bnd (get_anchor_st d self)
          (\<lambda>an s'.
             if normpath sp = normpath (dirname (join an (filename file)))
                \<and> basename (filename file) \<notin> fst ` set (dicts s' (children (nodes s' self)))
             then filter_children d self files
                    (AList.update (basename (filename file)) file to_return) s'
             else filter_children d self files to_return s'))
       s"

text \<open>The loop of \<open>find_children\<close> over the filtered entries.\<close>

fun register_children :: "nat \<Rightarrow> addr \<Rightarrow> (string \<times> entry) list \<Rightarrow> unit action" where
  "register_children d self [] s = (Inr (), s)"
| "register_children d self ((item, info) # rest) s =
     (case get_context s self of
        None \<Rightarrow> (Inl AttributeError, s)
      | Some c \<Rightarrow>
          bnd (if folder info = None
               then Terminal_add_path d item True (Some ''7z'') ''text'' ''dir'' False ''py7zr''
                      (Some self) (Some False)
               else Terminal_add_path d item False None ''text'' ''dir'' False ''py7zr''
                      (Some self) None)
            (\<lambda>_. register_children d self rest) s)"

text \<open>The first statement of \<open>find_children\<close>: fetch the archive unless it is there.\<close>

definition ensure_archive :: "nat \<Rightarrow> addr \<Rightarrow> unit action" where
  "ensure_archive d self s =
     (case archive_file (nodes s self) of
        None \<Rightarrow>
          bnd (get_archive_file d self)
            (\<lambda>ar s'. (Inr (), upd self (\<lambda>n. n\<lparr>archive_file := ar\<rparr>) s')) s
      | Some ar \<Rightarrow> (Inr (), s))"

definition find_children :: "nat \<Rightarrow> addr \<Rightarrow> unit action" where
  "find_children d self =
     bnd (ensure_archive d self)
       (\<lambda>_ s1.
          case archive_file (nodes s1 self) of
            None \<Rightarrow> (Inr (), s1)
          | Some ar \<Rightarrow>
              bnd (filter_children d self (files_info ar) [])
                (\<lambda>child_info. register_children d self child_info) s1)"

text \<open>The first archive directory above or at a node that is an anchor.\<close>

primrec nearest_anchor :: "nat \<Rightarrow> state \<Rightarrow> addr \<Rightarrow> addr option" where
  "nearest_anchor 0 s a = None"
| "nearest_anchor (Suc d) s a =
     (if is_ArchivePath (cls (nodes s a)) \<and> get_is_anchor s a then Some a
      else (case get_parent s a of None \<Rightarrow> None | Some par \<Rightarrow> nearest_anchor d s par))"

text \<open>
  \<open>as_built d s a\<close>: the archive directory \<open>a\<close> and its ancestors up to the nearest
  anchor (at most \<open>d\<close> nodes) hold the path and the anchor that their constructors
  stored: an anchor holds its own path as anchor, any other node the anchor of its
  parent, an archive directory itself.
\<close>

primrec as_built :: "nat \<Rightarrow> state \<Rightarrow> addr \<Rightarrow> bool" where
  "as_built 0 s a = False"
| "as_built (Suc d) s a =
     (let n = nodes s a in
      is_ArchivePath (cls n) \<and> path n \<noteq> None
      \<and> (if is_anchor n then anchor n = path n
         else (case parent n of
                 None \<Rightarrow> False
               | Some par \<Rightarrow>
                   anchor n \<noteq> None \<and> anchor n = anchor (nodes s par) \<and> as_built d s par)))"

section \<open>Runs of operations, and a concrete world\<close>

text \<open>\<open>Mapping.get\<close>: item access that turns a missing key into \<open>None\<close>.\<close>

definition DirPath_get :: "state \<Rightarrow> addr \<Rightarrow> string \<Rightarrow> addr option result" where
  "DirPath_get s self key =
     (case DirPath_getitem s self key of Inl KeyError \<Rightarrow> Inr None | r \<Rightarrow> r)"

text \<open>A run of item assignments \<open>D[key] = value\<close>; it stops at the first exception.\<close>

fun setitems :: "nat \<Rightarrow> (addr \<times> string \<times> addr) list \<Rightarrow> unit action" where
  "setitems d [] s = (Inr (), s)"
| "setitems d ((self, key, v) # ops) s =
     (case DirPath_setitem d self key v s of
        (Inl e, s') \<Rightarrow> (Inl e, s')
      | (Inr u, s') \<Rightarrow> setitems d ops s')"

definition no_reserved_keys :: "state \<Rightarrow> bool" where
  "no_reserved_keys s =
     (\<forall>r. ''.'' \<notin> fst ` set (dicts s r) \<and> ''..'' \<notin> fst ` set (dicts s r))"

text \<open>A run of the two setters, on any objects.\<close>

datatype setter = SetName addr string | SetParent addr "addr option"

fun apply_setters :: "setter list \<Rightarrow> state \<Rightarrow> state" where
  "apply_setters [] s = s"
| "apply_setters (SetName a nm # ops) s = apply_setters ops (set_name a nm s)"
| "apply_setters (SetParent a par # ops) s = apply_setters ops (set_parent a par s)"

text \<open>
  The type tables of a \<open>Terminal\<close> built without arguments, and those of the program's
  entry point, which adds the image, document, video and archive types.
\<close>

definition default_terminal :: terminal where
  "default_terminal =
     \<lparr>file_map = [(''text'', TextFile, [''.txt'']), (''binary'', BinaryFile, [''.bin''])],
      dir_map = [(''dir'', DirPath, [[]])],
      current = 0, tempfiles = [], prompted = [], printed = []\<rparr>"

definition main_terminal :: terminal where
  "main_terminal =
     default_terminal
       \<lparr>file_map :=
          [(''text'', TextFile, [''.txt'']), (''binary'', BinaryFile, [''.bin'']),
           (''image'', ImageFile, [''.jpg'', ''.png'', ''.bmp'', ''.webp'']),
           (''pdf'', GenericFile, [''.pdf'']),
           (''video'', GenericFile, [''.mp4'', ''.mkv'', ''.webm'', ''.gif'']),
           (''generic'', GenericFile, []),
           (''7z'', Py7zrArchivePath, [''.7z''])],
        dir_map := [(''dir'', DirPath, [[]]), (''7z'', Py7zrArchivePath, [''.7z''])]\<rparr>"

text \<open>
  A world with no objects yet: the process runs in \<open>/home/user\<close>, nothing is on disk,
  the user answers every prompt with the empty string and no archive can be opened.
\<close>

definition empty_state :: state where
  "empty_state =
     \<lparr>nodes = (\<lambda>a. blank Path), dicts = (\<lambda>r. []), next_addr = 0, next_dref = 0,
      terminal_obj = main_terminal, cwd = ''/home/user'', warned = [],
      disk = (\<lambda>p. None),
      mkstemp_name = (\<lambda>i suffix. ''/tmp/tmp'' @ replicate i (CHR ''x'') @ suffix),
      mkstemp_count = 0, decode_utf8 = Some,
      answers = (\<lambda>i. []),
      SevenZipFile = (\<lambda>src pw. Inl (ArchiveError ''not an archive''))\<rparr>"

subsection \<open>Example worlds\<close>

text \<open>Two filesystem directories built in the empty world: \<open>a\<close> at address 0, \<open>b\<close> at 1.\<close>

definition two_dirs :: state where
  "two_dirs =
     snd (construct 1 DirPath ''b'' None ''fs'' ''dir'' None None
       (snd (construct 1 DirPath ''a'' None ''fs'' ''dir'' None None empty_state)))"

text \<open>
  A directory and a text file built with the backend \<open>py7zr\<close> and no parent, in the
  empty world.
\<close>

definition backend_root_dir :: "addr result \<times> state" where
  "backend_root_dir = construct 1 DirPath ''x'' None ''py7zr'' ''dir'' None None empty_state"

definition backend_root_file :: "addr result \<times> state" where
  "backend_root_file = construct 1 TextFile ''x'' None ''py7zr'' ''text'' None None empty_state"

text \<open>The assignment \<open>a['.'] = b\<close> in the world of the two directories.\<close>

definition a_absorbs_b :: "unit result \<times> state" where
  "a_absorbs_b = DirPath_setitem 1 0 ''.'' 1 two_dirs"

text \<open>
  A run of assignments on the two directories: a child, a parent, an absorb, and a
  child again, which lands in the dict that both directories share by then.
\<close>

definition mixed_run :: "unit result \<times> state" where
  "mixed_run =
     setitems 1 [(0, ''x'', 1), (0, ''..'', 1), (0, ''.'', 1), (0, ''y'', 0)] two_dirs"

text \<open>A text file \<open>notes.txt\<close> created under the directory \<open>a\<close>.\<close>

definition with_notes :: "addr result \<times> state" where
  "with_notes = construct (Suc (Suc 0)) TextFile ''notes.txt'' (Some 0) ''fs'' ''text'' None None two_dirs"

subsection \<open>Notions for the archive properties\<close>

text \<open>
  The filtering rule in the words of the specification: an entry belongs to the node
  with path \<open>P\<close> and anchor \<open>A\<close> iff the normalized directory name of the anchor joined
  with the internal path of the entry equals the normalized path of the node.
\<close>

definition spec_belongs :: "string \<Rightarrow> string \<Rightarrow> entry \<Rightarrow> bool" where
  "spec_belongs P A f = (normpath (dirname (join A (filename f))) = normpath P)"

text \<open>
  An archive directory as \<open>find_children\<close> expects it: an allocated object of class
  \<open>Py7zrArchivePath\<close> with its path and anchor cached and a context, holding an
  allocated children dict.
\<close>

definition node_ready :: "state \<Rightarrow> addr \<Rightarrow> string \<Rightarrow> string \<Rightarrow> bool" where
  "node_ready s self P A =
     (is_Py7zrArchivePath (cls (nodes s self)) \<and> path (nodes s self) = Some P
      \<and> anchor (nodes s self) = Some A \<and> context_list (nodes s self) \<noteq> None
      \<and> self < next_addr s \<and> children (nodes s self) < next_dref s)"

text \<open>
  Type tables under which \<open>find_children\<close> finds its classes: the directory table maps
  \<open>7z\<close> to an archive class, and the file table knows the default type \<open>text\<close>.
\<close>

definition tables_ok :: "terminal \<Rightarrow> bool" where
  "tables_ok t =
     ((case map_of (dir_map t) ''7z'' of None \<Rightarrow> False | Some (c, exts) \<Rightarrow> is_ArchivePath c)
      \<and> ''text'' \<in> fst ` set (file_map t))"

text \<open>The number of password prompts issued so far.\<close>

definition prompts :: "state \<Rightarrow> nat" where
  "prompts s = length (prompted (terminal_obj s))"



subsection \<open>Worlds with an archive\<close>

text \<open>
  The start node of a \<open>Terminal\<close>: \<open>DirPath(name=os.path.abspath(start_path),
  context=[self])\<close>, which becomes the current directory.
\<close>

definition new_start :: "nat \<Rightarrow> string \<Rightarrow> addr action" where
  "new_start d start_path s =
     (case mk DirPath
             (\<lambda>self. DirPath_init d self (abspath (cwd s) start_path) None ''fs'' ''dir''
                        NoChildren (Some 0)) s of
        (Inr a, s') \<Rightarrow> (Inr a, s'\<lparr>terminal_obj := (terminal_obj s')\<lparr>current := a\<rparr>\<rparr>)
      | (Inl e, s') \<Rightarrow> (Inl e, s'))"


definition full_archive :: archive where
  "full_archive =
     \<lparr>files_info = [\<lparr>filename = ''a'', folder = None\<rparr>,
                    \<lparr>filename = ''a/b.txt'', folder = Some 0\<rparr>,
                    \<lparr>filename = ''a/c'', folder = None\<rparr>,
                    \<lparr>filename = ''a/c/d.txt'', folder = Some 0\<rparr>],
      stored = [(''a/b.txt'', ''hello''), (''a/c/d.txt'', ''deep'')]\<rparr>"

text \<open>
  The archive library of a world in which the file \<open>/root\<close> is the archive \<open>ar\<close>,
  without a password or protected by the password \<open>secret\<close>.
\<close>

definition plain_opener :: "archive \<Rightarrow> source \<Rightarrow> string option \<Rightarrow> archive result" where
  "plain_opener ar src pw =
     (if src = FromPath ''/root'' then Inr ar else Inl (ArchiveError ''not an archive''))"

definition locked_opener :: "archive \<Rightarrow> string \<Rightarrow> source \<Rightarrow> string option \<Rightarrow> archive result" where
  "locked_opener ar secret src pw =
     (if src = FromPath ''/root'' then
        (case pw of
           None \<Rightarrow> Inl PasswordRequired
         | Some p \<Rightarrow> if p = secret then Inr ar else Inl LZMAError)
      else Inl (ArchiveError ''not an archive''))"

text \<open>
  The tree of the worked example: the process runs in \<open>/\<close>, the start node is \<open>/\<close>
  (address 0), the archive \<open>/root\<close> is an anchor below it (address 1), and its folder
  \<open>a\<close> is a directory of the archive that is not an anchor (address 2).
\<close>

definition archive_world ::
  "(source \<Rightarrow> string option \<Rightarrow> archive result) \<Rightarrow> (nat \<Rightarrow> string) \<Rightarrow> state" where
  "archive_world opener ans =
     snd (construct (Suc (Suc 0)) Py7zrArchivePath ''a'' (Some 1) ''py7zr'' ''7z'' None (Some False)
       (snd (construct (Suc (Suc 0)) Py7zrArchivePath ''root'' (Some 0) ''py7zr'' ''7z'' None None
          (snd (new_start (Suc 0) ''/''
             (empty_state\<lparr>cwd := ''/'', SevenZipFile := opener, answers := ans\<rparr>))))))"


definition full_world :: state where
  "full_world = archive_world (plain_opener full_archive) (\<lambda>i. [])"



definition fourth_time_lucky :: state where
  "fourth_time_lucky =
     archive_world (locked_opener full_archive ''secret'')
       (\<lambda>i. if i = 3 then ''secret'' else ''guess'')"

text \<open>The full world after \<open>set_anchor('/elsewhere')\<close> on the anchor.\<close>

definition moved_anchor :: state where
  "moved_anchor = set_anchor 1 ''/elsewhere'' full_world"

text \<open>The full world once the folder \<open>a\<close> has fetched its archive.\<close>

definition opened_folder :: state where
  "opened_folder = snd (ensure_archive (Suc (Suc 0)) 2 full_world)"

text \<open>
  What an initialiser may touch: the object under construction, dicts allocated
  meanwhile and the warnings. And what a constructor call leaves of the store it
  started in: the objects and dicts allocated before, and the \<open>Terminal\<close>.
\<close>

definition footprint :: "addr \<Rightarrow> state \<Rightarrow> state \<Rightarrow> bool" where
  "footprint self s s' =
     ((\<forall>b. b \<noteq> self \<longrightarrow> nodes s' b = nodes s b)
      \<and> (\<forall>r. r < next_dref s \<longrightarrow> dicts s' r = dicts s r)
      \<and> next_dref s \<le> next_dref s' \<and> next_addr s' = next_addr s
      \<and> terminal_obj s' = terminal_obj s)"

definition extends :: "state \<Rightarrow> state \<Rightarrow> bool" where
  "extends s s' =
     ((\<forall>b. b < next_addr s \<longrightarrow> nodes s' b = nodes s b)
      \<and> (\<forall>r. r < next_dref s \<longrightarrow> dicts s' r = dicts s r)
      \<and> next_dref s \<le> next_dref s' \<and> next_addr s \<le> next_addr s'
      \<and> terminal_obj s' = terminal_obj s)"

text \<open>
  The folder \<open>a\<close> of the full world (address 2, parent 1) after the caller has put
  the root node into its children dict under both reserved keys, as
  \<open>a.get_children()['.'] = root\<close> does.
\<close>

definition crowded_folder :: state where
  "crowded_folder = full_world\<lparr>dicts := (dicts full_world)(2 := [(''.'', 0), (''..'', 0)])\<rparr>"

text \<open>
  A directory \<open>a\<close> built without children (address 0), a dict \<open>{'.': a}\<close> of the
  caller, and a directory \<open>b = DirPath('/home/user/b', children={'.': a})\<close> built on
  that dict (address 1); then the assignment \<open>a['.'] = b\<close>.
\<close>

definition dotted_world :: state where
  "dotted_world =
     snd (mk DirPath
            (\<lambda>self. DirPath_init (Suc 0) self ''/home/user/b'' None ''fs'' ''dir'' (ChildDict 1) None)
            (snd (new_dict [(''.'', 0)]
               (snd (construct (Suc 0) DirPath ''a'' None ''fs'' ''dir'' None None empty_state)))))"

definition dotted_run :: "unit result \<times> state" where
  "dotted_run = setitems (Suc 0) [(0, ''.'', 1)] dotted_world"




definition full_listed :: "unit result \<times> state" where
  "full_listed = find_children (Suc (Suc 0)) 2 full_world"

definition full_listed_twice :: "unit result \<times> state" where
  "full_listed_twice = find_children (Suc (Suc 0)) 2 (snd full_listed)"

definition locked_listed :: "unit result \<times> state" where
  "locked_listed = find_children (Suc (Suc 0)) 1 fourth_time_lucky"

definition locked_listed_twice :: "unit result \<times> state" where
  "locked_listed_twice = find_children (Suc (Suc 0)) 1 (snd locked_listed)"

section \<open>Properties\<close>

subsection \<open>Evaluation on concrete worlds\<close>

lemmas posix_defs = abspath_def normpath_def isabs_def join_def startswith_def endswith_def
  sep_def norm_step_def basename_def dirname_def rstrip_sep_def

lemmas eval_defs = construct_def mk_def new_object_def new_dict_def DirPath_init_def Path_init_def
  VirtualDirPath_init_def ArchivePath_init_def Py7zrArchivePath_init_def get_anchor_st_def
  init_children_def bnd_def ret_def raise_def get_path_st_def DirPath_get_path_def Path_get_path_def
  set_context_def DirPath_set_context_def Path_set_context_def upd_def warn_def blank_def
  empty_state_def is_DirPath_def is_ArchivePath_def Let_def first_value_def DirPath_getitem_def
  get_name_def get_parent_def get_type_def get_backend_def get_children_def

lemma two_dirs_eval:
  "nodes two_dirs = (\<lambda>a. blank Path)
     (0 := \<lparr>cls = DirPath, name = ''a'', parent = None, backend = ''fs'', path_type = ''dir'',
            path = Some ''/home/user/a'', context_list = None, children = 0, is_anchor = False,
            anchor = None, child_data = [], archive_file = None\<rparr>,
      1 := \<lparr>cls = DirPath, name = ''b'', parent = None, backend = ''fs'', path_type = ''dir'',
            path = Some ''/home/user/b'', context_list = None, children = 1, is_anchor = False,
            anchor = None, child_data = [], archive_file = None\<rparr>)"
  "dicts two_dirs = (\<lambda>r. [])" "next_addr two_dirs = 2" "next_dref two_dirs = 2"
  "warned two_dirs = []" "cwd two_dirs = ''/home/user''"
  by (simp_all add: two_dirs_def eval_defs posix_defs fun_eq_iff)

lemma a_absorbs_b_eval:
  "fst a_absorbs_b = Inr ()"
  "get_backend (snd a_absorbs_b) 0 = ''/home/user/b''"
  "get_backend (snd a_absorbs_b) 1 = ''fs''"
  "get_name (snd a_absorbs_b) 0 = ''b''"
  "get_parent (snd a_absorbs_b) 0 = None"
  "get_type (snd a_absorbs_b) 0 = ''dir''"
  by (simp_all add: a_absorbs_b_def DirPath_setitem_def DirPath_absorb_def Path_absorb_def
        two_dirs_eval eval_defs)

lemma mixed_run_eval:
  "fst mixed_run = Inr ()"
  "DirPath_iter (snd mixed_run) 0 = [''y'']"
  "DirPath_iter (snd mixed_run) 1 = [''y'']"
  "dicts (snd mixed_run) 0 = [(''x'', 1)]"
  "get_parent (snd mixed_run) 0 = None"
  by (simp_all add: mixed_run_def DirPath_setitem_def DirPath_absorb_def Path_absorb_def
        set_parent_def DirPath_iter_def two_dirs_eval eval_defs)

lemma with_notes_eval:
  "fst with_notes = Inr 2"
  "path (nodes (snd with_notes) 2) = Some ''/home/user/a/notes.txt''"
  by (simp_all add: with_notes_def two_dirs_eval eval_defs posix_defs)

lemma backend_root_eval:
  "fst backend_root_dir = Inr 0"
  "path (nodes (snd backend_root_dir) 0) = Some ''/home/user/x''"
  "warned (snd backend_root_dir) = []"
  "fst backend_root_file = Inr 0"
  "path (nodes (snd backend_root_file) 0) = Some ''x''"
  "warned (snd backend_root_file) =
     [UnexpectedSituationWarning
        ''get_path() was called on a non-filesystem backed Path with no parent'']"
  by (simp_all add: backend_root_dir_def backend_root_file_def eval_defs posix_defs)

subsection \<open>The store under the basic operations\<close>

lemma upd_fields [simp]:
  "dicts (upd a f s) = dicts s" "cwd (upd a f s) = cwd s" "warned (upd a f s) = warned s"
  "next_addr (upd a f s) = next_addr s" "next_dref (upd a f s) = next_dref s"
  "terminal_obj (upd a f s) = terminal_obj s" "disk (upd a f s) = disk s"
  "answers (upd a f s) = answers s" "SevenZipFile (upd a f s) = SevenZipFile s"
  "mkstemp_name (upd a f s) = mkstemp_name s" "mkstemp_count (upd a f s) = mkstemp_count s"
  "decode_utf8 (upd a f s) = decode_utf8 s"
  "nodes (upd a f s) b = (if b = a then f (nodes s a) else nodes s b)"
  by (simp_all add: upd_def)

lemma warn_fields [simp]:
  "dicts (warn ws s) = dicts s" "cwd (warn ws s) = cwd s" "warned (warn ws s) = warned s @ ws"
  "next_addr (warn ws s) = next_addr s" "next_dref (warn ws s) = next_dref s"
  "terminal_obj (warn ws s) = terminal_obj s" "disk (warn ws s) = disk s"
  "answers (warn ws s) = answers s" "SevenZipFile (warn ws s) = SevenZipFile s"
  "mkstemp_name (warn ws s) = mkstemp_name s" "mkstemp_count (warn ws s) = mkstemp_count s"
  "decode_utf8 (warn ws s) = decode_utf8 s"
  "nodes (warn ws s) = nodes s"
  by (simp_all add: warn_def)

lemma get_path_st_state: "get_path_st d a s = (r, s') \<Longrightarrow> \<exists>ws. s' = warn ws s"
  by (auto simp: get_path_st_def split: prod.splits)

lemma bndE:
  assumes "bnd m f s = (r, s')"
  obtains (fail) e where "m s = (Inl e, s')" "r = Inl e"
        | (ok) x s1 where "m s = (Inr x, s1)" "f x s1 = (r, s')"
  using assms by (auto simp: bnd_def split: prod.splits sum.splits)

lemma Path_absorb_dicts: "Path_absorb d self other s = (r, s') \<Longrightarrow> dicts s' = dicts s"
  unfolding Path_absorb_def Let_def
  by (erule bndE) (auto dest!: get_path_st_state)

lemma DirPath_absorb_dicts: "DirPath_absorb d self other s = (r, s') \<Longrightarrow> dicts s' = dicts s"
  unfolding DirPath_absorb_def
  by (erule bndE) (auto dest!: Path_absorb_dicts split: sum.splits)

lemma setitem_reserved_keys:
  assumes "DirPath_setitem d self key v s = (r, s')" and "k = ''.'' \<or> k = ''..''"
  shows "k \<in> fst ` set (dicts s' ref) \<longleftrightarrow> k \<in> fst ` set (dicts s ref)"
proof (cases "key = ''.''")
  case True
  then show ?thesis using assms DirPath_absorb_dicts[of d self v s r s']
    by (simp add: DirPath_setitem_def)
next
  case False
  show ?thesis
  proof (cases "key = ''..''")
    case True
    then show ?thesis using assms by (auto simp: DirPath_setitem_def set_parent_def)
  next
    case k: False
    let ?r = "children (nodes s self)"
    have s': "s' = s\<lparr>dicts := (dicts s)(?r := AList.update key v (dicts s ?r))\<rparr>"
      using assms(1) False k by (simp add: DirPath_setitem_def Let_def)
    have "fst ` set (dicts s' ref)
            = (if ref = ?r then {key} \<union> fst ` set (dicts s ref) else fst ` set (dicts s ref))"
      by (simp add: s' AList.dom_update)
    moreover have "k \<noteq> key" using assms(2) False k by auto
    ultimately show ?thesis by (simp split: if_splits)
  qed
qed

lemma setitems_reserved_keys:
  assumes "setitems d ops s = (r, s')" and "k = ''.'' \<or> k = ''..''"
  shows "k \<in> fst ` set (dicts s' ref) \<longleftrightarrow> k \<in> fst ` set (dicts s ref)"
  using assms
proof (induction ops arbitrary: s)
  case Nil
  then show ?case by simp
next
  case (Cons op ops)
  obtain self key v where op: "op = (self, key, v)" by (cases op)
  obtain r1 s1 where step: "DirPath_setitem d self key v s = (r1, s1)" by force
  have k1: "k \<in> fst ` set (dicts s1 ref) \<longleftrightarrow> k \<in> fst ` set (dicts s ref)"
    using setitem_reserved_keys[OF step Cons.prems(2)] .
  show ?case
  proof (cases r1)
    case (Inl e)
    with Cons.prems op step have "s' = s1" by simp
    with k1 show ?thesis by simp
  next
    case (Inr u)
    with Cons.prems op step have "setitems d ops s1 = (r, s')" by simp
    from Cons.IH[OF this Cons.prems(2)] k1 show ?thesis by simp
  qed
qed

subsection \<open>The reserved keys of a directory\<close>

text \<open>
  C8: for every directory \<open>D\<close>, \<open>D['.']\<close> and \<open>D.get('.')\<close> return \<open>D\<close> itself, and
  \<open>D['..']\<close> and \<open>D.get('..')\<close> return the object in the \<open>parent\<close> attribute of \<open>D\<close>
  (\<open>None\<close> if it has none), whatever the children dict holds: the store \<open>s\<close> is
  arbitrary.
\<close>

theorem getitem_dot_and_dotdot:
  "DirPath_getitem s D ''.'' = Inr (Some D)
   \<and> DirPath_getitem s D ''..'' = Inr (parent (nodes s D))
   \<and> DirPath_get s D ''.'' = Inr (Some D)
   \<and> DirPath_get s D ''..'' = Inr (parent (nodes s D))"
  by (simp add: DirPath_getitem_def DirPath_get_def get_parent_def)

text \<open>
  C9, as amended: no run of item assignments, on any directories of the store, puts
  the key \<open>.\<close> or \<open>..\<close> into any children dict: after the run a dict holds a reserved
  key exactly if it held it before. Where no dict of the store holds one at the start
  (the constructor passes a \<open>children\<close> argument through unchecked, so this is a
  condition on the whole store and not on one directory), none does at the end, and
  the iteration, the containment test and the size of every directory leave both keys
  out. The run may end normally or with an exception.
\<close>

theorem reserved_keys_never_stored:
  assumes "setitems d ops s = (r, s')"
  shows "(\<forall>ref. (''.'' \<in> fst ` set (dicts s' ref) \<longleftrightarrow> ''.'' \<in> fst ` set (dicts s ref))
             \<and> (''..'' \<in> fst ` set (dicts s' ref) \<longleftrightarrow> ''..'' \<in> fst ` set (dicts s ref)))
       \<and> (no_reserved_keys s \<longrightarrow>
            no_reserved_keys s'
            \<and> (\<forall>D. ''.'' \<notin> set (DirPath_iter s' D) \<and> ''..'' \<notin> set (DirPath_iter s' D)
                   \<and> \<not> DirPath_contains s' D ''.'' \<and> \<not> DirPath_contains s' D ''..''
                   \<and> DirPath_len s' D
                       = length (filter (\<lambda>k. k \<noteq> ''.'' \<and> k \<noteq> ''..'') (DirPath_iter s' D))))"
proof -
  have keys: "\<And>k ref. k = ''.'' \<or> k = ''..'' \<Longrightarrow>
      (k \<in> fst ` set (dicts s' ref) \<longleftrightarrow> k \<in> fst ` set (dicts s ref))"
    using setitems_reserved_keys[OF assms] by blast
  have inv: "no_reserved_keys s'" if "no_reserved_keys s"
    using that keys unfolding no_reserved_keys_def by blast
  have views: "''.'' \<notin> set (DirPath_iter s' D) \<and> ''..'' \<notin> set (DirPath_iter s' D)
                   \<and> \<not> DirPath_contains s' D ''.'' \<and> \<not> DirPath_contains s' D ''..''
                   \<and> DirPath_len s' D
                       = length (filter (\<lambda>k. k \<noteq> ''.'' \<and> k \<noteq> ''..'') (DirPath_iter s' D))"
    if "no_reserved_keys s'" for D
  proof -
    let ?al = "dicts s' (children (nodes s' D))"
    from that have a: "''.'' \<notin> fst ` set ?al" and b: "''..'' \<notin> fst ` set ?al"
      unfolding no_reserved_keys_def by blast+
    have "filter (\<lambda>k. k \<noteq> ''.'' \<and> k \<noteq> ''..'') (map fst ?al) = map fst ?al"
      using a b by (intro filter_True) (auto simp: image_iff)
    with a b show ?thesis
      by (simp add: DirPath_iter_def DirPath_contains_def DirPath_len_def)
  qed
  show ?thesis using keys inv views by blast
qed

theorem reserved_keys_never_stored_witness:
  "no_reserved_keys two_dirs
   \<and> no_reserved_keys (snd mixed_run)
   \<and> ''.'' \<notin> set (DirPath_iter (snd mixed_run) 0)
   \<and> ''..'' \<notin> set (DirPath_iter (snd mixed_run) 0)
   \<and> DirPath_iter (snd mixed_run) 0 = [''y'']
   \<and> DirPath_iter (snd mixed_run) 1 = [''y'']
   \<and> DirPath_len (snd mixed_run) 0 = 1"
proof -
  have pre: "no_reserved_keys two_dirs"
    by (simp add: no_reserved_keys_def two_dirs_eval)
  have run: "setitems 1 [(0, ''x'', 1), (0, ''..'', 1), (0, ''.'', 1), (0, ''y'', 0)] two_dirs
               = (fst mixed_run, snd mixed_run)"
    by (simp add: mixed_run_def)
  from reserved_keys_never_stored [OF run] pre
  have "no_reserved_keys (snd mixed_run)
        \<and> ''.'' \<notin> set (DirPath_iter (snd mixed_run) 0)
        \<and> ''..'' \<notin> set (DirPath_iter (snd mixed_run) 0)"
    by blast
  moreover have "DirPath_len (snd mixed_run) 0 = 1"
    using arg_cong [OF mixed_run_eval(2) [unfolded DirPath_iter_def], of length]
    by (simp add: DirPath_len_def)
  ultimately show ?thesis using pre mixed_run_eval by simp
qed

subsection \<open>The cached path\<close>

lemma get_path_cached: "path (nodes s a) = Some p \<Longrightarrow> get_path (Suc k) s a = (Inr p, [])"
  by (simp add: DirPath_get_path_def Path_get_path_def)

lemma apply_setters_path: "path (nodes (apply_setters ops s) a) = path (nodes s a)"
  by (induction ops s rule: apply_setters.induct) (simp_all add: set_name_def set_parent_def)

lemma set_context_path: "set_context self cx s = (r, s') \<Longrightarrow> path (nodes s' a) = path (nodes s a)"
  by (auto simp: set_context_def DirPath_set_context_def Path_set_context_def Let_def
           split: if_splits option.splits sum.splits)

lemma Path_init_path:
  assumes "Path_init d self nm par be pt cx s0 = (Inr u, s1)"
  shows "\<exists>p. path (nodes s1 self) = Some p"
  using assms unfolding Path_init_def Let_def
proof (cases rule: bndE)
  case (fail e)
  then show ?thesis by simp
next
  case (ok p s3)
  from set_context_path[OF ok(2), of self] show ?thesis by simp
qed

lemma DirPath_init_path:
  assumes "DirPath_init d self nm par be pt ch cx s0 = (Inr u, s1)"
  shows "\<exists>p. path (nodes s1 self) = Some p"
  using assms unfolding DirPath_init_def
proof (cases rule: bndE)
  case (fail e)
  then show ?thesis by simp
next
  case (ok x s2)
  from Path_init_path[OF ok(1)] obtain p where p: "path (nodes s2 self) = Some p" ..
  show ?thesis
  proof (cases "name (nodes s2 self) = ''..'' \<and> dicts s2 (children (nodes s2 self)) \<noteq> []")
    case True
    with ok(2) have "bnd (get_path_st d self)
        (\<lambda>p s'. (Inr (), upd self (\<lambda>n. n\<lparr>name := basename p\<rparr>) s')) s2 = (Inr u, s1)"
      by simp
    then show ?thesis
    proof (cases rule: bndE)
      case (fail e)
      then show ?thesis by simp
    next
      case (ok q s3)
      from get_path_st_state[OF ok(1)] ok(2) p show ?thesis by auto
    qed
  next
    case False
    with ok(2) p show ?thesis by auto
  qed
qed

lemma VirtualDirPath_init_path:
  assumes "VirtualDirPath_init d self nm par be pt s0 = (Inr u, s1)"
  shows "\<exists>p. path (nodes s1 self) = Some p"
  using assms Path_init_path unfolding VirtualDirPath_init_def by blast

lemma get_anchor_st_state: "get_anchor_st d a s = (r, s') \<Longrightarrow> \<exists>ws. s' = warn ws s"
  by (auto simp: get_anchor_st_def split: prod.splits)

lemma ArchivePath_init_path:
  assumes "ArchivePath_init d self nm par pt ia s0 = (Inr u, s1)"
  shows "\<exists>p. path (nodes s1 self) = Some p"
  using assms unfolding ArchivePath_init_def
proof (cases rule: bndE)
  case (fail e)
  then show ?thesis by simp
next
  case (ok x s2)
  from VirtualDirPath_init_path[OF ok(1)] obtain p where p: "path (nodes s2 self) = Some p" ..
  from ok(2) show ?thesis unfolding Let_def
  proof (cases rule: bndE)
    case (fail e)
    then show ?thesis by simp
  next
    case (ok a s3)
    have s3: "path (nodes s3 self) = Some p"
      using ok(1) p
      by (auto simp: ret_def elim!: bndE dest!: get_path_st_state split: if_splits)
    from ok(2) show ?thesis
    proof (cases rule: bndE)
      case (fail e)
      then show ?thesis by simp
    next
      case (ok a' s5)
      from get_anchor_st_state[OF ok(1)] ok(2) s3 show ?thesis by auto
    qed
  qed
qed

lemma Py7zrArchivePath_init_path:
  assumes "Py7zrArchivePath_init d self nm par pt ia s0 = (Inr u, s1)"
  shows "\<exists>p. path (nodes s1 self) = Some p"
  using assms unfolding Py7zrArchivePath_init_def
  by (cases rule: bndE) (auto dest!: ArchivePath_init_path)

lemma mk_Inr:
  assumes "mk c init s = (Inr self, s1)"
  shows "init self (snd (new_object c s)) = (Inr (), s1)"
  using assms by (auto simp: mk_def new_object_def split: prod.splits sum.splits)

lemma construct_path:
  assumes "construct d c nm par be pt ch ia s0 = (Inr self, s1)"
  shows "\<exists>p. path (nodes s1 self) = Some p"
  using assms unfolding construct_def
  by (auto simp: raise_def split: if_splits
           dest!: mk_Inr Path_init_path DirPath_init_path VirtualDirPath_init_path
                  ArchivePath_init_path Py7zrArchivePath_init_path)

text \<open>
  C10: every node the program constructs (any class, through the constructor call of
  \<open>add_path\<close>) leaves its constructor with \<open>path\<close> set to a string \<open>p\<close>; from then on
  \<open>get_path()\<close> returns \<open>p\<close> without a warning, and still does after any run of
  \<open>set_name\<close> and \<open>set_parent\<close> on this node or on any other.
\<close>

theorem path_cached_at_construction:
  assumes "construct d c nm par be pt ch ia s0 = (Inr self, s1)"
  shows "\<exists>p. path (nodes s1 self) = Some p
            \<and> (\<forall>k. get_path (Suc k) s1 self = (Inr p, []))
            \<and> (\<forall>ops k. get_path (Suc k) (apply_setters ops s1) self = (Inr p, []))"
proof -
  from construct_path[OF assms] obtain p where p: "path (nodes s1 self) = Some p" ..
  have "get_path (Suc k) (apply_setters ops s1) self = (Inr p, [])" for ops k
    by (rule get_path_cached) (simp add: apply_setters_path p)
  moreover have "get_path (Suc k) s1 self = (Inr p, [])" for k
    by (rule get_path_cached) (rule p)
  ultimately show ?thesis using p by blast
qed

theorem path_cached_at_construction_witness:
  "fst with_notes = Inr 2
   \<and> path (nodes (snd with_notes) 2) = Some ''/home/user/a/notes.txt''
   \<and> get_path (Suc 0)
        (apply_setters [SetName 2 ''renamed'', SetParent 2 (Some 1), SetName 0 ''c'']
           (snd with_notes)) 2
      = (Inr ''/home/user/a/notes.txt'', [])"
proof -
  have built: "construct (Suc (Suc 0)) TextFile ''notes.txt'' (Some 0) ''fs'' ''text'' None None
                 two_dirs = (Inr 2, snd with_notes)"
    using with_notes_eval(1) by (simp add: with_notes_def prod_eq_iff)
  from path_cached_at_construction [OF built]
  obtain p where p: "path (nodes (snd with_notes) 2) = Some p"
    and stable: "\<forall>ops k. get_path (Suc k) (apply_setters ops (snd with_notes)) 2 = (Inr p, [])"
    by blast
  from p with_notes_eval(2) have "p = ''/home/user/a/notes.txt''"
    by simp
  with stable
  have "get_path (Suc 0)
          (apply_setters [SetName 2 ''renamed'', SetParent 2 (Some 1), SetName 0 ''c'']
             (snd with_notes)) 2
        = (Inr ''/home/user/a/notes.txt'', [])"
    by blast
  with with_notes_eval show ?thesis by blast
qed

subsection \<open>Where the code departs from its description\<close>

text \<open>
  C4: after \<open>a['.'] = b\<close> the directory \<open>a\<close> has the name, the parent and the type of
  \<open>b\<close>, but its backend is the path of \<open>b\<close>, not the backend of \<open>b\<close>:
  \<open>Path.absorb\<close> assigns \<open>other.get_path()\<close> to \<open>self.backend\<close>.
\<close>

theorem absorb_takes_path_as_backend:
  "fst a_absorbs_b = Inr ()
   \<and> get_name (snd a_absorbs_b) 0 = get_name (snd a_absorbs_b) 1
   \<and> get_parent (snd a_absorbs_b) 0 = get_parent (snd a_absorbs_b) 1
   \<and> get_type (snd a_absorbs_b) 0 = get_type (snd a_absorbs_b) 1
   \<and> get_backend (snd a_absorbs_b) 0 = ''/home/user/b''
   \<and> get_backend (snd a_absorbs_b) 1 = ''fs''
   \<and> get_backend (snd a_absorbs_b) 0 \<noteq> get_backend (snd a_absorbs_b) 1"
  by (simp add: a_absorbs_b_def DirPath_setitem_def DirPath_absorb_def Path_absorb_def
        two_dirs_eval eval_defs)

text \<open>
  C5: a directory built with the backend \<open>py7zr\<close>, no parent and no children gets the
  absolute path of its name and no warning is issued, where a file built the same way
  gets its bare name together with an \<open>UnexpectedSituationWarning\<close>:
  \<open>DirPath.get_path\<close> has no branch for the parentless node of a backend.
\<close>

theorem backend_root_dir_gets_path_silently:
  "fst backend_root_dir = Inr 0
   \<and> get_backend (snd backend_root_dir) 0 = ''py7zr''
   \<and> get_parent (snd backend_root_dir) 0 = None
   \<and> DirPath_len (snd backend_root_dir) 0 = 0
   \<and> path (nodes (snd backend_root_dir) 0) = Some ''/home/user/x''
   \<and> warned (snd backend_root_dir) = []
   \<and> path (nodes (snd backend_root_file) 0) = Some ''x''
   \<and> warned (snd backend_root_file) =
        [UnexpectedSituationWarning
           ''get_path() was called on a non-filesystem backed Path with no parent'']"
  by (simp add: backend_root_dir_def backend_root_file_def DirPath_len_def eval_defs posix_defs)

subsection \<open>The anchor of an archive directory\<close>

lemma warn_Nil [simp]: "warn [] s = s"
  by (simp add: warn_def)

lemma get_path_st_cached:
  "path (nodes s a) = Some p \<Longrightarrow> get_path_st (Suc k) a s = (Inr p, s)"
  by (simp add: get_path_st_def get_path_cached del: get_path.simps)

lemma get_anchor_cached:
  "is_ArchivePath (cls (nodes s a)) \<Longrightarrow> anchor (nodes s a) = Some A
     \<Longrightarrow> get_anchor (Suc k) s a = (Inr A, [])"
  by (simp add: Let_def)

lemma get_anchor_st_cached:
  "is_ArchivePath (cls (nodes s a)) \<Longrightarrow> anchor (nodes s a) = Some A
     \<Longrightarrow> get_anchor_st (Suc k) a s = (Inr A, s)"
  by (simp add: get_anchor_st_def get_anchor_cached del: get_anchor.simps)

lemma as_built_anchor:
  "as_built d s a \<Longrightarrow>
     \<exists>A B. anchor (nodes s a) = Some A \<and> is_ArchivePath (cls (nodes s a))
          \<and> nearest_anchor d s a = Some B \<and> path (nodes s B) = Some A
          \<and> get_is_anchor s B \<and> (get_is_anchor s a \<longrightarrow> B = a)"
proof (induction d arbitrary: a)
  case 0
  then show ?case by simp
next
  case (Suc d)
  let ?n = "nodes s a"
  from Suc.prems have arch: "is_ArchivePath (cls ?n)" and p: "path ?n \<noteq> None"
    by (simp_all add: Let_def)
  show ?case
  proof (cases "is_anchor ?n")
    case True
    with Suc.prems have "anchor ?n = path ?n" by (simp add: Let_def)
    with p True arch show ?thesis by (auto simp: get_is_anchor_def)
  next
    case False
    with Suc.prems obtain par where par: "parent ?n = Some par"
      and an: "anchor ?n \<noteq> None" "anchor ?n = anchor (nodes s par)" and b: "as_built d s par"
      by (auto simp: Let_def split: option.splits)
    from Suc.IH[OF b] obtain A B where
      "anchor (nodes s par) = Some A" "nearest_anchor d s par = Some B"
      "path (nodes s B) = Some A" "get_is_anchor s B"
      by blast
    with False par an arch show ?thesis
      by (auto simp: get_is_anchor_def get_parent_def)
  qed
qed

lemma as_built_frame:
  assumes "as_built d s a" and "path (nodes s self) = None"
    and "\<And>b. b \<noteq> self \<Longrightarrow> nodes s' b = nodes s b"
  shows "as_built d s' a \<and> a \<noteq> self"
  using assms(1)
proof (induction d arbitrary: a)
  case 0
  then show ?case by simp
next
  case (Suc d)
  from Suc.prems assms(2) have ne: "a \<noteq> self" by (auto simp: Let_def)
  with assms(3) have same: "nodes s' a = nodes s a" by simp
  show ?case
  proof (cases "is_anchor (nodes s a)")
    case True
    with Suc.prems same ne show ?thesis by (simp add: Let_def)
  next
    case False
    with Suc.prems obtain par where par: "parent (nodes s a) = Some par" and b: "as_built d s par"
      by (auto simp: Let_def split: option.splits)
    from Suc.IH[OF b] have "as_built d s' par" "par \<noteq> self" by simp_all
    with assms(3) have "nodes s' par = nodes s par" by simp
    with Suc.prems same ne False par \<open>as_built d s' par\<close> show ?thesis
      by (auto simp: Let_def)
  qed
qed

lemma Path_init_frame:
  assumes "Path_init d self nm par be pt cx s0 = (r, s1)" and "b \<noteq> self"
  shows "nodes s1 b = nodes s0 b"
  using assms unfolding Path_init_def Let_def
  by (auto elim!: bndE dest!: get_path_st_state
           simp: set_context_def DirPath_set_context_def Path_set_context_def Let_def
           split: if_splits option.splits sum.splits)

lemma Path_init_parent:
  assumes "Path_init d self nm par be pt cx s0 = (r, s1)"
  shows "parent (nodes s1 self) = par"
  using assms unfolding Path_init_def Let_def
  by (auto elim!: bndE dest!: get_path_st_state
           simp: set_context_def DirPath_set_context_def Path_set_context_def Let_def
           split: if_splits option.splits sum.splits)

lemma Path_init_cls:
  assumes "Path_init d self nm par be pt cx s0 = (r, s1)"
  shows "cls (nodes s1 self) = cls (nodes s0 self)"
  using assms unfolding Path_init_def Let_def
  by (auto elim!: bndE dest!: get_path_st_state
           simp: set_context_def DirPath_set_context_def Path_set_context_def Let_def
           split: if_splits option.splits sum.splits)

lemma init_children_nodes:
  "nodes (init_children self NoChildren s) b
     = (if b = self then (nodes s self)\<lparr>children := next_dref s\<rparr> else nodes s b)"
  by (simp add: init_children_def new_dict_def upd_def)

lemma VirtualDirPath_init_result:
  assumes "VirtualDirPath_init d self nm par be pt s0 = (Inr u, s1)"
  shows "(\<forall>b. b \<noteq> self \<longrightarrow> nodes s1 b = nodes s0 b) \<and> parent (nodes s1 self) = par
       \<and> cls (nodes s1 self) = cls (nodes s0 self) \<and> (\<exists>p. path (nodes s1 self) = Some p)"
  using assms Path_init_frame[of d self nm par be pt None "init_children self NoChildren s0" "Inr u" s1]
    Path_init_parent[of d self nm par be pt None "init_children self NoChildren s0" "Inr u" s1]
    Path_init_cls[of d self nm par be pt None "init_children self NoChildren s0" "Inr u" s1]
    Path_init_path[of d self nm par be pt None "init_children self NoChildren s0" u s1]
  unfolding VirtualDirPath_init_def by (simp add: init_children_nodes)

text \<open>
  What the constructor leaves is \<open>as_built\<close>: an anchor under any parent, and a
  directory that is not an anchor under a parent that is \<open>as_built\<close> itself. The object
  under construction is a fresh one, with no path yet.
\<close>

lemma ArchivePath_init_as_built:
  assumes init: "ArchivePath_init d self nm par pt ia s0 = (Inr u, s1)"
    and arch: "is_ArchivePath (cls (nodes s0 self))"
    and fresh: "path (nodes s0 self) = None"
    and parent_ok: "\<not> ia \<Longrightarrow> \<exists>p. par = Some p \<and> as_built k s0 p"
  shows "as_built (Suc k) s1 self"
  using init unfolding ArchivePath_init_def
proof (cases rule: bndE)
  case (fail e)
  then show ?thesis by simp
next
  case (ok x s2)
  note v = ok(1) and rest = ok(2)
  from VirtualDirPath_init_result[OF v] obtain p where
    frame: "\<And>b. b \<noteq> self \<Longrightarrow> nodes s2 b = nodes s0 b"
    and par2: "parent (nodes s2 self) = par"
    and cls2: "cls (nodes s2 self) = cls (nodes s0 self)"
    and p: "path (nodes s2 self) = Some p"
    by blast
  have d: "d \<noteq> 0"
  proof
    assume "d = 0"
    with rest show False
      by (auto simp: Let_def get_anchor_st_def get_path_st_def ret_def elim!: bndE split: if_splits)
  qed
  then obtain d' where d': "d = Suc d'" by (cases d) auto
  show ?thesis
  proof (cases ia)
    case True
    from rest have "s1 = upd self (\<lambda>n. n\<lparr>child_data := []\<rparr>)
                       (upd self (\<lambda>n. n\<lparr>anchor := Some p\<rparr>)
                          (upd self (\<lambda>n. n\<lparr>anchor := Some p\<rparr>)
                             (upd self (\<lambda>n. n\<lparr>is_anchor := True\<rparr>) s2)))"
      using True d' p cls2 arch
      by (simp add: Let_def bnd_def ret_def get_path_st_cached get_anchor_st_cached)
    with p cls2 arch show ?thesis by (simp add: Let_def)
  next
    case False
    with parent_ok obtain q where q: "par = Some q" "as_built k s0 q" by blast
    let ?s4 = "upd self (\<lambda>n. n\<lparr>anchor := None\<rparr>) (upd self (\<lambda>n. n\<lparr>is_anchor := False\<rparr>) s2)"
    have fr4: "\<And>b. b \<noteq> self \<Longrightarrow> nodes ?s4 b = nodes s0 b" using frame by simp
    from as_built_frame[OF q(2) fresh fr4] have q4: "as_built k ?s4 q" "q \<noteq> self" by simp_all
    from as_built_anchor[OF q4(1)] obtain A where
      A: "anchor (nodes ?s4 q) = Some A" "is_ArchivePath (cls (nodes ?s4 q))" by blast
    from rest False obtain a' s5 where ga: "get_anchor_st d self ?s4 = (Inr a', s5)"
      and s1: "s1 = upd self (\<lambda>n. n\<lparr>child_data := []\<rparr>) (upd self (\<lambda>n. n\<lparr>anchor := Some a'\<rparr>) s5)"
      by (auto simp: Let_def ret_def elim!: bndE)
    have "get_anchor d ?s4 self = get_anchor d' ?s4 q"
      using d' cls2 arch par2 q(1) by (simp add: Let_def get_is_anchor_def get_parent_def)
    moreover from ga obtain ws where gw: "get_anchor d ?s4 self = (Inr a', ws)" "s5 = warn ws ?s4"
      by (auto simp: get_anchor_st_def split: prod.splits)
    ultimately have "get_anchor d' ?s4 q = (Inr a', ws)" by simp
    then have "d' \<noteq> 0" by (cases d') auto
    then obtain d'' where "d' = Suc d''" by (cases d') auto
    with get_anchor_cached[OF A(2) A(1), of d''] \<open>get_anchor d' ?s4 q = (Inr a', ws)\<close>
    have a': "a' = A" by simp
    have fr1: "\<And>b. b \<noteq> self \<Longrightarrow> nodes s1 b = nodes s0 b"
      using frame by (simp add: s1 gw(2))
    from as_built_frame[OF q(2) fresh fr1] have q1: "as_built k s1 q" by simp
    have "anchor (nodes s1 q) = Some A" using A(1) q4(2) fr1 fr4 by simp
    with q1 q4(2) show ?thesis
      using cls2 arch par2 q(1) p by (simp add: s1 gw(2) a' Let_def)
  qed
qed

text \<open>
  C1, as amended: let the archive directory \<open>a\<close> and its ancestors up to the nearest
  anchor hold the path and anchor their constructors stored (\<open>as_built\<close>). If \<open>a\<close> is an
  anchor, \<open>get_anchor()\<close> returns what \<open>get_path()\<close> returns. If it is not, its parent
  chain leads to a nearest anchor \<open>B\<close>, another node, and \<open>get_anchor()\<close> returns what
  \<open>B.get_path()\<close> returns. In both cases the call returns a string and issues no
  warning.
\<close>

theorem anchor_of_built_archive_path:
  assumes "as_built d s a"
  shows "(get_is_anchor s a \<longrightarrow> get_anchor (Suc k) s a = get_path (Suc k) s a)
       \<and> (\<not> get_is_anchor s a \<longrightarrow>
            (\<exists>B. nearest_anchor d s a = Some B \<and> B \<noteq> a \<and> get_is_anchor s B
                 \<and> get_anchor (Suc k) s a = get_path (Suc k) s B))
       \<and> (\<exists>A. get_anchor (Suc k) s a = (Inr A, []))"
proof -
  from as_built_anchor[OF assms] obtain A B where
    A: "anchor (nodes s a) = Some A" and arch: "is_ArchivePath (cls (nodes s a))"
    and B: "nearest_anchor d s a = Some B" "path (nodes s B) = Some A" "get_is_anchor s B"
    and self: "get_is_anchor s a \<longrightarrow> B = a"
    by blast
  have ga: "get_anchor (Suc k) s a = (Inr A, [])" by (rule get_anchor_cached[OF arch A])
  have gp: "get_path (Suc k) s B = (Inr A, [])" by (rule get_path_cached[OF B(2)])
  have "B \<noteq> a" if "\<not> get_is_anchor s a" using that B(3) by auto
  with ga gp B self show ?thesis by auto
qed

subsection \<open>Opening a protected archive\<close>



lemma prompts_simps [simp]:
  "prompts (upd a f s) = prompts s" "prompts (warn ws s) = prompts s"
  "prompts (Terminal_add_tempfile nm s) = prompts s"
  "prompts (Terminal_error msg s) = prompts s"
  "prompts (s\<lparr>disk := dk\<rparr>) = prompts s" "prompts (s\<lparr>mkstemp_count := mc\<rparr>) = prompts s"
  by (simp_all add: prompts_def Terminal_add_tempfile_def Terminal_error_def)





lemma env_simps [simp]:
  "SevenZipFile (Terminal_error msg s) = SevenZipFile s"
  "answers (Terminal_error msg s) = answers s"
  "nodes (Terminal_error msg s) = nodes s"
  "prompted (terminal_obj (Terminal_error msg s)) = prompted (terminal_obj s)"
  "printed (terminal_obj (Terminal_error msg s)) = printed (terminal_obj s) @ [msg]"
  by (simp_all add: Terminal_error_def)

lemma password_simps [simp]:
  "SevenZipFile (snd (Terminal_password pr s)) = SevenZipFile s"
  "answers (snd (Terminal_password pr s)) = answers s"
  "nodes (snd (Terminal_password pr s)) = nodes s"
  "prompted (terminal_obj (snd (Terminal_password pr s))) = prompted (terminal_obj s) @ [pr]"
  "printed (terminal_obj (snd (Terminal_password pr s))) = printed (terminal_obj s)"
  "fst (Terminal_password pr s) = answers s (length (prompted (terminal_obj s)))"
  by (simp_all add: Terminal_password_def)





subsection \<open>Reading an entry as a temporary file and as a stream\<close>

lemma v_open_temp_fields:
  "nodes (Terminal_add_tempfile nm s) = nodes s" "disk (Terminal_add_tempfile nm s) = disk s"
  "cwd (Terminal_add_tempfile nm s) = cwd s"
  by (simp_all add: Terminal_add_tempfile_def)

lemma v_open_stream:
  "Py7zrArchivePath_v_open d self p False False
     = bnd (fetch_child_data d self p)
         (\<lambda>_ s. case map_of (child_data (nodes s self)) p of
                   None \<Rightarrow> (Inl KeyError, s)
                 | Some data \<Rightarrow> (Inr (ByteStream data), s))"
  by (simp add: Py7zrArchivePath_v_open_def cong: option.case_cong)

text \<open>
  C7: whenever \<open>v_open(path, temp=True)\<close> returns the name of a temporary file, that
  file holds exactly the bytes that \<open>v_open(path, temp=False, text=False)\<close> returns as
  a stream, be it called in the same state instead or in the state after.
\<close>

theorem temp_file_and_stream_same_bytes:
  assumes "Py7zrArchivePath_v_open d self p True text s = (Inr (TempFile nm), s1)"
  shows "\<exists>b s2 s3. Py7zrArchivePath_v_open d self p False False s = (Inr (ByteStream b), s2)
                  \<and> disk s1 nm = Some b
                  \<and> Py7zrArchivePath_v_open d self p False False s1 = (Inr (ByteStream b), s3)"
  using assms [unfolded Py7zrArchivePath_v_open_def]
proof (cases rule: bndE)
  case (fail e)
  then show ?thesis by simp
next
  case (ok u s')
  from ok(2) obtain b where b: "map_of (child_data (nodes s' self)) p = Some b"
    by (auto split: option.splits)
  with ok(2) have s1: "disk s1 nm = Some b" "nodes s1 = nodes s'"
    by (auto simp: Let_def v_open_temp_fields split: option.splits)
  from b have "p \<in> fst ` set (child_data (nodes s1 self))"
    using s1(2) by (force dest!: map_of_SomeD)
  then have again: "fetch_child_data d self p s1 = (Inr (), s1)"
    by (simp add: fetch_child_data_def)
  have "bnd (fetch_child_data d self p)
          (\<lambda>_ s. case map_of (child_data (nodes s self)) p of
                    None \<Rightarrow> (Inl KeyError, s)
                  | Some data \<Rightarrow> (Inr (ByteStream data), s)) s = (Inr (ByteStream b), s')"
    using ok(1) b by (simp add: bnd_def)
  moreover have "bnd (fetch_child_data d self p)
          (\<lambda>_ s. case map_of (child_data (nodes s self)) p of
                    None \<Rightarrow> (Inl KeyError, s)
                  | Some data \<Rightarrow> (Inr (ByteStream data), s)) s1 = (Inr (ByteStream b), s1)"
    using again b s1(2) by (simp add: bnd_def)
  ultimately show ?thesis using s1(1) by (simp add: v_open_stream)
qed

subsection \<open>The worked examples of the archive\<close>

lemma archive_world_eval:
  "nodes (archive_world opener ans) = (\<lambda>a. blank Path)
     (0 := \<lparr>cls = DirPath, name = '''', parent = None, backend = ''fs'', path_type = ''dir'',
            path = Some ''/'', context_list = Some 0, children = 0, is_anchor = False,
            anchor = None, child_data = [], archive_file = None\<rparr>,
      1 := \<lparr>cls = Py7zrArchivePath, name = ''root'', parent = Some 0, backend = ''py7zr'',
            path_type = ''7z'', path = Some ''/root'', context_list = Some 0, children = 1,
            is_anchor = True, anchor = Some ''/root'', child_data = [], archive_file = None\<rparr>,
      2 := \<lparr>cls = Py7zrArchivePath, name = ''a'', parent = Some 1, backend = ''py7zr'',
            path_type = ''7z'', path = Some ''/root/a'', context_list = Some 0, children = 2,
            is_anchor = False, anchor = Some ''/root'', child_data = [], archive_file = None\<rparr>)"
  "dicts (archive_world opener ans) = (\<lambda>r. [])"
  "next_addr (archive_world opener ans) = 3" "next_dref (archive_world opener ans) = 3"
  "warned (archive_world opener ans) = []" "cwd (archive_world opener ans) = ''/''"
  "terminal_obj (archive_world opener ans) = main_terminal"
  "SevenZipFile (archive_world opener ans) = opener"
  "answers (archive_world opener ans) = ans"
  "disk (archive_world opener ans) = (\<lambda>p. None)"
  "mkstemp_count (archive_world opener ans) = 0"
  "mkstemp_name (archive_world opener ans) = (\<lambda>i suffix. ''/tmp/tmp'' @ replicate i (CHR ''x'') @ suffix)"
  by (simp_all add: archive_world_def new_start_def eval_defs posix_defs fun_eq_iff
        main_terminal_def default_terminal_def)

text \<open>
  In the full world the anchor at address 1 and its folder at address 2 are as built:
  both return the anchor \<open>/root\<close>, the path of the anchor.
\<close>

theorem anchor_of_built_archive_path_witness:
  "as_built (Suc (Suc 0)) full_world 2
   \<and> get_is_anchor full_world 1 \<and> \<not> get_is_anchor full_world 2
   \<and> get_anchor (Suc 0) full_world 1 = get_path (Suc 0) full_world 1
   \<and> nearest_anchor (Suc (Suc 0)) full_world 2 = Some 1
   \<and> get_anchor (Suc 0) full_world 2 = get_path (Suc 0) full_world 1
   \<and> get_path (Suc 0) full_world 1 = (Inr ''/root'', [])"
proof -
  have b2: "as_built (Suc (Suc 0)) full_world 2" and b1: "as_built (Suc 0) full_world 1"
    by (simp_all add: full_world_def archive_world_eval is_ArchivePath_def)
  have flags: "get_is_anchor full_world 1" "\<not> get_is_anchor full_world 2"
    by (simp_all add: full_world_def archive_world_eval get_is_anchor_def)
  have near: "nearest_anchor (Suc (Suc 0)) full_world 2 = Some 1"
    by (simp add: full_world_def archive_world_eval get_is_anchor_def get_parent_def
          is_ArchivePath_def)
  have p1: "get_path (Suc 0) full_world 1 = (Inr ''/root'', [])"
    by (simp add: full_world_def archive_world_eval get_path_cached del: get_path.simps)
  from anchor_of_built_archive_path [OF b1, of 0] flags(1)
  have a1: "get_anchor (Suc 0) full_world 1 = get_path (Suc 0) full_world 1" by blast
  from anchor_of_built_archive_path [OF b2, of 0] flags(2) near
  have a2: "get_anchor (Suc 0) full_world 2 = get_path (Suc 0) full_world 1" by auto
  from b2 flags a1 near a2 p1 show ?thesis by blast
qed

text \<open>
  C1 as stated fails once a setter has run: after \<open>set_anchor('/elsewhere')\<close> the node
  at address 1 is still an anchor, and \<open>get_anchor()\<close> returns the memoized string,
  not its path.
\<close>

theorem set_anchor_parts_anchor_from_path:
  "is_ArchivePath (cls (nodes moved_anchor 1)) \<and> get_is_anchor moved_anchor 1
   \<and> get_anchor (Suc 0) moved_anchor 1 = (Inr ''/elsewhere'', [])
   \<and> get_path (Suc 0) moved_anchor 1 = (Inr ''/root'', [])
   \<and> get_anchor (Suc 0) moved_anchor 1 \<noteq> get_path (Suc 0) moved_anchor 1"
  by (simp add: moved_anchor_def set_anchor_def full_world_def archive_world_eval
        is_ArchivePath_def get_is_anchor_def is_DirPath_def DirPath_get_path_def Let_def)



lemma get_archive_file_anchor_eval:
  "get_archive_file (Suc 0) 1 full_world = (Inr (Some full_archive), full_world)"
  by (simp add: full_world_def archive_world_eval Let_def is_Py7zrArchivePath_def
        get_is_anchor_def get_parent_def get_backend_def bnd_def get_path_st_cached
        open_archive_def plain_opener_def del: get_path.simps)

lemma get_archive_file_folder_eval:
  "get_archive_file (Suc (Suc 0)) 2 full_world = (Inr (Some full_archive), full_world)"
proof -
  have "get_archive_file (Suc (Suc 0)) 2 full_world = get_archive_file (Suc 0) 1 full_world"
    by (simp add: full_world_def archive_world_eval Let_def is_Py7zrArchivePath_def
        get_is_anchor_def del: get_archive_file.simps(2))
       (simp add: full_world_def archive_world_eval Let_def is_Py7zrArchivePath_def
        get_is_anchor_def)
  then show ?thesis by (simp only: get_archive_file_anchor_eval)
qed

lemma full_world_eval:
  "nodes full_world 2 =
      \<lparr>cls = Py7zrArchivePath, name = ''a'', parent = Some 1, backend = ''py7zr'',
            path_type = ''7z'', path = Some ''/root/a'', context_list = Some 0, children = 2,
            is_anchor = False, anchor = Some ''/root'', child_data = [], archive_file = None\<rparr>"
  "dicts full_world = (\<lambda>r. [])"
  "next_addr full_world = 3" "next_dref full_world = 3"
  "cwd full_world = ''/''" "terminal_obj full_world = main_terminal"
  "disk full_world = (\<lambda>p. None)" "mkstemp_count full_world = 0"
  "mkstemp_name full_world = (\<lambda>i suffix. ''/tmp/tmp'' @ replicate i (CHR ''x'') @ suffix)"
  "warned full_world = []"
  by (simp_all add: full_world_def archive_world_eval)

lemma opened_folder_is:
  "opened_folder = upd 2 (\<lambda>n. n\<lparr>archive_file := Some full_archive\<rparr>) full_world"
  by (simp add: opened_folder_def ensure_archive_def bnd_def get_archive_file_folder_eval
        full_world_eval del: get_archive_file.simps)

lemma opened_folder_eval:
  "nodes opened_folder 2 =
      \<lparr>cls = Py7zrArchivePath, name = ''a'', parent = Some 1, backend = ''py7zr'',
            path_type = ''7z'', path = Some ''/root/a'', context_list = Some 0, children = 2,
            is_anchor = False, anchor = Some ''/root'', child_data = [],
            archive_file = Some full_archive\<rparr>"
  "dicts opened_folder = (\<lambda>r. [])"
  "next_addr opened_folder = 3" "next_dref opened_folder = 3"
  "cwd opened_folder = ''/''" "terminal_obj opened_folder = main_terminal"
  "disk opened_folder = (\<lambda>p. None)" "mkstemp_count opened_folder = 0"
  "mkstemp_name opened_folder = (\<lambda>i suffix. ''/tmp/tmp'' @ replicate i (CHR ''x'') @ suffix)"
  "warned opened_folder = []"
  by (simp_all add: opened_folder_is full_world_eval)

lemma relpath_b_txt: "relpath ''/'' (join ''/root/a'' ''b.txt'') ''/root'' = Some ''a/b.txt''"
  by (simp add: relpath_def posix_defs)

lemma stored_b_txt: "map_of (stored full_archive) ''a/b.txt'' = Some ''hello''"
  by (simp add: full_archive_def)

lemma fetch_b_txt:
  "fetch_child_data (Suc 0) 2 ''b.txt'' opened_folder
     = (Inr (),
        upd 2 (\<lambda>n. n\<lparr>child_data := AList.update ''b.txt'' ''hello'' (child_data n)\<rparr>)
          opened_folder)"
  by (simp add: fetch_child_data_def opened_folder_eval bnd_def get_path_st_cached
        get_anchor_st_cached is_ArchivePath_def relpath_b_txt stored_b_txt
        del: get_path.simps get_anchor.simps)

lemma b_txt_eval:
  "fst (Py7zrArchivePath_v_open (Suc 0) 2 ''b.txt'' True False opened_folder)
     = Inr (TempFile ''/tmp/tmp.txt'')"
  "disk (snd (Py7zrArchivePath_v_open (Suc 0) 2 ''b.txt'' True False opened_folder)) ''/tmp/tmp.txt''
     = Some ''hello''"
  by (simp_all add: Py7zrArchivePath_v_open_def bnd_def fetch_b_txt opened_folder_eval Let_def
        get_context_def Terminal_add_tempfile_def splitext_ext_def basename_def sep_def)

text \<open>
  The entry \<open>a/b.txt\<close> of the full archive, read through the folder \<open>a\<close>: the
  temporary file and the stream hold the same five bytes.
\<close>

theorem temp_file_and_stream_same_bytes_witness:
  "fst (Py7zrArchivePath_v_open (Suc 0) 2 ''b.txt'' True False opened_folder)
     = Inr (TempFile ''/tmp/tmp.txt'')
   \<and> disk (snd (Py7zrArchivePath_v_open (Suc 0) 2 ''b.txt'' True False opened_folder))
         ''/tmp/tmp.txt'' = Some ''hello''
   \<and> fst (Py7zrArchivePath_v_open (Suc 0) 2 ''b.txt'' False False opened_folder)
       = Inr (ByteStream ''hello'')"
proof -
  have run: "Py7zrArchivePath_v_open (Suc 0) 2 ''b.txt'' True False opened_folder
               = (Inr (TempFile ''/tmp/tmp.txt''),
                  snd (Py7zrArchivePath_v_open (Suc 0) 2 ''b.txt'' True False opened_folder))"
    using b_txt_eval(1) by (simp add: prod_eq_iff)
  from temp_file_and_stream_same_bytes [OF run] b_txt_eval(2)
  have "fst (Py7zrArchivePath_v_open (Suc 0) 2 ''b.txt'' False False opened_folder)
          = Inr (ByteStream ''hello'')"
    by auto
  with b_txt_eval show ?thesis by blast
qed

subsection \<open>Listing the children of an archive directory\<close>

lemma footprint_refl [simp]: "footprint self s s"
  by (simp add: footprint_def)

lemma footprint_trans: "footprint self s s1 \<Longrightarrow> footprint self s1 s2 \<Longrightarrow> footprint self s s2"
  by (auto simp: footprint_def)

lemma footprint_upd [simp]: "footprint self s (upd self f s)"
  by (simp add: footprint_def)

lemma footprint_warn [simp]: "footprint self s (warn ws s)"
  by (simp add: footprint_def)

lemma footprint_upd_after: "footprint self s s1 \<Longrightarrow> footprint self s (upd self f s1)"
  by (auto simp: footprint_def)

lemma footprint_warn_after: "footprint self s s1 \<Longrightarrow> footprint self s (warn ws s1)"
  by (auto simp: footprint_def)

lemma footprint_init_children: "footprint self s (init_children self NoChildren s)"
  by (simp add: footprint_def init_children_def new_dict_def upd_def)

lemma set_context_footprint: "set_context self cx s = (r, s') \<Longrightarrow> footprint self s s'"
  by (auto simp: set_context_def DirPath_set_context_def Path_set_context_def Let_def
           split: if_splits option.splits sum.splits)

lemma Path_init_footprint:
  assumes "Path_init d self nm par be pt cx s0 = (r, s1)"
  shows "footprint self s0 s1"
  using assms unfolding Path_init_def Let_def
  by (auto elim!: bndE dest!: get_path_st_state set_context_footprint
           intro: footprint_trans footprint_upd_after footprint_warn_after
           simp: footprint_def)


lemma get_path_st_footprint: "get_path_st d a s = (r, s') \<Longrightarrow> footprint self s s'"
  by (auto dest!: get_path_st_state)

lemma get_anchor_st_footprint: "get_anchor_st d a s = (r, s') \<Longrightarrow> footprint self s s'"
  by (auto dest!: get_anchor_st_state)

lemma DirPath_init_footprint:
  assumes "DirPath_init d self nm par be pt NoChildren cx s0 = (r, s1)"
  shows "footprint self s0 s1"
proof -
  have f0: "footprint self s0 (init_children self NoChildren s0)"
    by (rule footprint_init_children)
  from assms [unfolded DirPath_init_def] show ?thesis
  proof (cases rule: bndE)
    case (fail e)
    from Path_init_footprint[OF fail(1)] f0 show ?thesis by (rule footprint_trans[rotated])
  next
    case (ok x s2)
    have f2: "footprint self s0 s2"
      using Path_init_footprint[OF ok(1)] f0 by (rule footprint_trans[rotated])
    have "footprint self s2 s1"
      using ok(2)
      by (auto elim!: bndE dest!: get_path_st_state split: if_splits
               intro: footprint_upd_after)
    with f2 show ?thesis by (rule footprint_trans)
  qed
qed

lemma VirtualDirPath_init_footprint:
  assumes "VirtualDirPath_init d self nm par be pt s0 = (r, s1)"
  shows "footprint self s0 s1"
  using assms Path_init_footprint footprint_init_children footprint_trans
  unfolding VirtualDirPath_init_def by blast

lemma ArchivePath_init_footprint:
  assumes "ArchivePath_init d self nm par pt ia s0 = (r, s1)"
  shows "footprint self s0 s1"
  using assms [unfolded ArchivePath_init_def]
proof (cases rule: bndE)
  case (fail e)
  then show ?thesis by (auto dest: VirtualDirPath_init_footprint)
next
  case (ok x s2)
  note f2 = VirtualDirPath_init_footprint[OF ok(1)]
  have "footprint self s2 s1"
    using ok(2) unfolding Let_def
    by (auto elim!: bndE dest!: get_path_st_state get_anchor_st_state
             simp: ret_def footprint_def split: if_splits)
  with f2 show ?thesis by (rule footprint_trans)
qed

lemma Py7zrArchivePath_init_footprint:
  assumes "Py7zrArchivePath_init d self nm par pt ia s0 = (r, s1)"
  shows "footprint self s0 s1"
  using assms [unfolded Py7zrArchivePath_init_def]
  by (cases rule: bndE)
     (auto dest!: ArchivePath_init_footprint intro: footprint_upd_after)

lemma mk_extends:
  assumes "mk c init s = (r, s')"
    and "\<And>self s0 r s1. init self s0 = (r, s1) \<Longrightarrow> footprint self s0 s1"
  shows "extends s s'"
proof -
  obtain r1 where i: "init (next_addr s) (snd (new_object c s)) = (r1, s')"
    using assms(1) by (auto simp: mk_def new_object_def split: prod.splits sum.splits)
  from assms(2)[OF i] show ?thesis
    by (auto simp: footprint_def extends_def new_object_def)
qed

lemma construct_extends:
  assumes "construct d c nm par be pt None ia s = (r, s')"
  shows "extends s s'"
proof -
  have "extends s s" by (simp add: extends_def)
  with assms show ?thesis
    unfolding construct_def
    by (auto simp: raise_def split: if_splits
             elim!: mk_extends
             dest: Path_init_footprint DirPath_init_footprint VirtualDirPath_init_footprint
                   ArchivePath_init_footprint Py7zrArchivePath_init_footprint)
qed


lemma basename_no_sep: "sep \<notin> set (basename p)"
  by (auto simp: basename_def dest: set_takeWhileD)

lemma basename_id: "sep \<notin> set x \<Longrightarrow> basename x = x"
proof -
  assume "sep \<notin> set x"
  then have tw: "takeWhile (\<lambda>c. c \<noteq> sep) (rev x) = rev x"
    by (intro takeWhile_eq_all_conv[THEN iffD2]) auto
  show ?thesis unfolding basename_def tw by simp
qed

lemma Path_init_child_ok:
  assumes P: "path (nodes s0 self) = Some P" and ne: "new \<noteq> self" and nm: "sep \<notin> set nm"
  shows "\<exists>s1. Path_init (Suc (Suc k)) new nm (Some self) be pt None s0 = (Inr (), s1)
              \<and> path (nodes s1 new) = Some (join P nm)"
  using P ne basename_id[OF nm]
  by (simp add: Path_init_def Let_def bnd_def get_path_st_def DirPath_get_path_def
        Path_get_path_def set_context_def DirPath_set_context_def Path_set_context_def)


lemma DirPath_init_child_ok:
  assumes P: "path (nodes s0 self) = Some P" and ne: "new \<noteq> self" and nm: "sep \<notin> set nm"
  shows "\<exists>s1. DirPath_init (Suc (Suc k)) new nm (Some self) be pt NoChildren None s0 = (Inr (), s1)"
proof -
  let ?s = "init_children new NoChildren s0"
  have "path (nodes ?s self) = Some P" using P ne by (simp add: init_children_nodes)
  from Path_init_child_ok[OF this ne nm, of k be pt] obtain s2 where
    s2: "Path_init (Suc (Suc k)) new nm (Some self) be pt None ?s = (Inr (), s2)"
    and p2: "path (nodes s2 new) = Some (join P nm)"
    by blast
  from p2 have "get_path_st (Suc (Suc k)) new s2 = (Inr (join P nm), s2)"
    by (rule get_path_st_cached)
  with s2 show ?thesis
    by (simp add: DirPath_init_def bnd_def)
qed

lemma VirtualDirPath_init_child_ok:
  assumes P: "path (nodes s0 self) = Some P" and ne: "new \<noteq> self" and nm: "sep \<notin> set nm"
  shows "\<exists>s1. VirtualDirPath_init (Suc (Suc k)) new nm (Some self) be pt s0 = (Inr (), s1)"
proof -
  let ?s = "init_children new NoChildren s0"
  have "path (nodes ?s self) = Some P" using P ne by (simp add: init_children_nodes)
  from Path_init_child_ok[OF this ne nm, of k be pt] show ?thesis
    unfolding VirtualDirPath_init_def by blast
qed

lemma ArchivePath_init_child_ok:
  assumes P: "path (nodes s0 self) = Some P" and ne: "new \<noteq> self" and nm: "sep \<notin> set nm"
    and new_cls: "is_ArchivePath (cls (nodes s0 new))"
    and par: "\<not> ia \<Longrightarrow> is_ArchivePath (cls (nodes s0 self)) \<and> anchor (nodes s0 self) = Some A"
  shows "\<exists>s1. ArchivePath_init (Suc (Suc k)) new nm (Some self) pt ia s0 = (Inr (), s1)"
proof -
  from VirtualDirPath_init_child_ok[OF P ne nm, of k "''py7zr''" pt] obtain s2 where
    v: "VirtualDirPath_init (Suc (Suc k)) new nm (Some self) ''py7zr'' pt s0 = (Inr (), s2)"
    by blast
  from VirtualDirPath_init_result[OF v] obtain q where
    frame: "\<And>b. b \<noteq> new \<Longrightarrow> nodes s2 b = nodes s0 b"
    and par2: "parent (nodes s2 new) = Some self"
    and cls2: "cls (nodes s2 new) = cls (nodes s0 new)"
    and q: "path (nodes s2 new) = Some q"
    by blast
  have self2: "nodes s2 self = nodes s0 self" using frame ne by simp
  show ?thesis
  proof (cases ia)
    case True
    then show ?thesis
      using v q cls2 new_cls
      by (simp add: ArchivePath_init_def bnd_def Let_def ret_def get_path_st_cached
            get_anchor_st_cached del: get_path.simps get_anchor.simps)
  next
    case False
    with par have a: "is_ArchivePath (cls (nodes s0 self))" "anchor (nodes s0 self) = Some A"
      by simp_all
    let ?s4 = "upd new (\<lambda>n. n\<lparr>anchor := None\<rparr>) (upd new (\<lambda>n. n\<lparr>is_anchor := False\<rparr>) s2)"
    have "get_anchor (Suc (Suc k)) ?s4 new = get_anchor (Suc k) ?s4 self"
      using cls2 new_cls par2 by (simp add: Let_def get_is_anchor_def get_parent_def)
    also have "\<dots> = (Inr A, [])"
      using a self2 ne by (intro get_anchor_cached) simp_all
    finally have "get_anchor_st (Suc (Suc k)) new ?s4 = (Inr A, ?s4)"
      by (simp add: get_anchor_st_def del: get_anchor.simps)
    with False v show ?thesis
      by (simp add: ArchivePath_init_def bnd_def Let_def ret_def del: get_anchor.simps)
  qed
qed

lemma Py7zrArchivePath_init_child_ok:
  assumes P: "path (nodes s0 self) = Some P" and ne: "new \<noteq> self" and nm: "sep \<notin> set nm"
    and new_cls: "is_ArchivePath (cls (nodes s0 new))"
    and par: "\<not> ia \<Longrightarrow> is_ArchivePath (cls (nodes s0 self)) \<and> anchor (nodes s0 self) = Some A"
  shows "\<exists>s1. Py7zrArchivePath_init (Suc (Suc k)) new nm (Some self) pt ia s0 = (Inr (), s1)"
proof -
  have "\<exists>s1. ArchivePath_init (Suc (Suc k)) new nm (Some self) pt ia s0 = (Inr (), s1)"
    by (rule ArchivePath_init_child_ok[OF P ne nm new_cls]) (rule par)
  then show ?thesis by (auto simp: Py7zrArchivePath_init_def bnd_def)
qed


lemma mk_ok:
  "init (next_addr s) (snd (new_object c s)) = (Inr (), s1) \<Longrightarrow> mk c init s = (Inr (next_addr s), s1)"
  by (simp add: mk_def new_object_def)

lemma new_object_nodes:
  "nodes (snd (new_object c s)) b = (if b = next_addr s then blank c else nodes s b)"
  by (simp add: new_object_def)

lemma construct_child_ok:
  assumes P: "path (nodes s self) = Some P" and lt: "self < next_addr s" and nm: "sep \<notin> set nm"
    and kw: "ia_kw = None
             \<or> (ia_kw = Some False \<and> is_ArchivePath c \<and> is_ArchivePath (cls (nodes s self))
                 \<and> anchor (nodes s self) = Some A)"
  shows "\<exists>s1. construct (Suc (Suc k)) c nm (Some self) be pt None ia_kw s = (Inr (next_addr s), s1)"
proof -
  let ?new = "next_addr s" and ?s0 = "snd (new_object c s)"
  have ne: "?new \<noteq> self" using lt by simp
  have P0: "path (nodes ?s0 self) = Some P" using P ne by (simp add: new_object_nodes)
  have c0: "cls (nodes ?s0 ?new) = c" by (simp add: new_object_nodes blank_def)
  have self0: "nodes ?s0 self = nodes s self" using ne by (simp add: new_object_nodes)
  consider (plain) "c \<in> {Path, FilePath, GenericFile, TermuxGenericFile}"
    | (typed) "c \<in> {TextFile, BinaryFile, ImageFile}"
    | (dir) "c = DirPath" | (virt) "c = VirtualDirPath"
    | (arch) "c = ArchivePath" | (py7zr) "c = Py7zrArchivePath"
    by (cases c) auto
  then show ?thesis
  proof cases
    case plain
    with kw have k: "ia_kw = None" by (auto simp: is_ArchivePath_def)
    from Path_init_child_ok[OF P0 ne nm, of k be pt] obtain s1 where
      "Path_init (Suc (Suc k)) ?new nm (Some self) be pt None ?s0 = (Inr (), s1)" by blast
    from mk_ok[of "\<lambda>self'. Path_init (Suc (Suc k)) self' nm (Some self) be pt None", OF this]
    show ?thesis using plain k by (auto simp: construct_def)
  next
    case typed
    with kw have k: "ia_kw = None" by (auto simp: is_ArchivePath_def)
    let ?pt = "if c = TextFile then ''text'' else if c = BinaryFile then ''binary'' else ''image''"
    from Path_init_child_ok[OF P0 ne nm, of k be ?pt] obtain s1 where
      "Path_init (Suc (Suc k)) ?new nm (Some self) be ?pt None ?s0 = (Inr (), s1)" by blast
    from mk_ok[of "\<lambda>self'. Path_init (Suc (Suc k)) self' nm (Some self) be ?pt None", OF this]
    show ?thesis using typed k by (auto simp: construct_def)
  next
    case dir
    with kw have k: "ia_kw = None" by (auto simp: is_ArchivePath_def)
    from DirPath_init_child_ok[OF P0 ne nm, of k be pt] obtain s1 where
      "DirPath_init (Suc (Suc k)) ?new nm (Some self) be pt NoChildren None ?s0 = (Inr (), s1)"
      by blast
    from mk_ok[of "\<lambda>self'. DirPath_init (Suc (Suc k)) self' nm (Some self) be pt NoChildren None",
        OF this]
    show ?thesis using dir k by (auto simp: construct_def)
  next
    case virt
    with kw have k: "ia_kw = None" by (auto simp: is_ArchivePath_def)
    from VirtualDirPath_init_child_ok[OF P0 ne nm, of k be pt] obtain s1 where
      "VirtualDirPath_init (Suc (Suc k)) ?new nm (Some self) be pt ?s0 = (Inr (), s1)"
      by blast
    from mk_ok[of "\<lambda>self'. VirtualDirPath_init (Suc (Suc k)) self' nm (Some self) be pt", OF this]
    show ?thesis using virt k by (auto simp: construct_def)
  next
    case arch
    let ?ia = "case ia_kw of None \<Rightarrow> True | Some b \<Rightarrow> b"
    have "\<exists>s1. ArchivePath_init (Suc (Suc k)) ?new nm (Some self) pt ?ia ?s0 = (Inr (), s1)"
    proof (rule ArchivePath_init_child_ok[OF P0 ne nm])
      show "is_ArchivePath (cls (nodes ?s0 ?new))" using c0 arch by (simp add: is_ArchivePath_def)
      show "is_ArchivePath (cls (nodes ?s0 self)) \<and> anchor (nodes ?s0 self) = Some A" if "\<not> ?ia"
        using that kw self0 by (auto split: option.splits)
    qed
    then obtain s1 where
      "ArchivePath_init (Suc (Suc k)) ?new nm (Some self) pt ?ia ?s0 = (Inr (), s1)" by blast
    from mk_ok[of "\<lambda>self'. ArchivePath_init (Suc (Suc k)) self' nm (Some self) pt ?ia", OF this]
    show ?thesis using arch by (auto simp: construct_def)
  next
    case py7zr
    let ?ia = "case ia_kw of None \<Rightarrow> True | Some b \<Rightarrow> b"
    have "\<exists>s1. Py7zrArchivePath_init (Suc (Suc k)) ?new nm (Some self) pt ?ia ?s0 = (Inr (), s1)"
    proof (rule Py7zrArchivePath_init_child_ok[OF P0 ne nm])
      show "is_ArchivePath (cls (nodes ?s0 ?new))" using c0 py7zr by (simp add: is_ArchivePath_def)
      show "is_ArchivePath (cls (nodes ?s0 self)) \<and> anchor (nodes ?s0 self) = Some A" if "\<not> ?ia"
        using that kw self0 by (auto split: option.splits)
    qed
    then obtain s1 where
      "Py7zrArchivePath_init (Suc (Suc k)) ?new nm (Some self) pt ?ia ?s0 = (Inr (), s1)" by blast
    from mk_ok[of "\<lambda>self'. Py7zrArchivePath_init (Suc (Suc k)) self' nm (Some self) pt ?ia", OF this]
    show ?thesis using py7zr by (auto simp: construct_def)
  qed
qed

lemma insert_mem: "a \<in> insert i S \<Longrightarrow> i \<in> S \<Longrightarrow> a \<in> S"
  by auto

lemma insert_chain_mem:
  "a \<in> insert i' S \<Longrightarrow> i' \<in> insert i T \<Longrightarrow> S \<subseteq> insert i T \<Longrightarrow> a \<in> insert i T"
  by auto

lemma foldl_pick:
  "foldl (\<lambda>acc (k, c, exts). if x \<in> set exts then k else acc) init xs \<in> insert init (fst ` set xs)"
proof (induction xs arbitrary: init)
  case Nil
  then show ?case by simp
next
  case (Cons y ys)
  obtain k c exts where y: "y = (k, c, exts)" by (cases y)
  let ?f = "\<lambda>acc (k, c, exts). if x \<in> set exts then k else acc"
  let ?i = "if x \<in> set exts then k else init"
  have step: "foldl ?f init (y # ys) = foldl ?f ?i ys" by (simp add: y)
  have a: "foldl ?f ?i ys \<in> insert ?i (fst ` set ys)" by (rule Cons.IH)
  have b: "?i \<in> insert init (fst ` set (y # ys))" by (simp add: y)
  have c: "fst ` set ys \<subseteq> insert init (fst ` set (y # ys))" by auto
  show ?case unfolding step by (rule insert_chain_mem[OF a b c])
qed

lemma get_path_type_known:
  assumes "''text'' \<in> fst ` set (file_map t)"
  shows "\<exists>c exts. map_of (file_map t) (get_path_type t p False ''text'' dd) = Some (c, exts)"
proof -
  have "get_path_type t p False ''text'' dd \<in> insert ''text'' (fst ` set (file_map t))"
    unfolding get_path_type_def using foldl_pick[of "splitext_ext p" "''text''" "file_map t"]
    by simp
  from this assms have "get_path_type t p False ''text'' dd \<in> fst ` set (file_map t)"
    by (rule insert_mem)
  then obtain v where "map_of (file_map t) (get_path_type t p False ''text'' dd) = Some v"
    by (metis domD dom_map_of_conv_image_fst)
  then show ?thesis by (cases v) auto
qed


lemma add_child_core:
  assumes ready: "node_ready s self P A"
    and nm: "sep \<notin> set item" and res: "item \<noteq> ''.''" "item \<noteq> ''..''"
    and kw: "ia_kw = None \<or> (ia_kw = Some False \<and> is_ArchivePath c)"
  shows "\<exists>s'. bnd (construct (Suc (Suc k)) c item (Some self) be pt None ia_kw)
                 (\<lambda>new. assign_item (Suc (Suc k)) self item new) s = (Inr (), s')
              \<and> nodes s' self = nodes s self \<and> terminal_obj s' = terminal_obj s
              \<and> next_addr s \<le> next_addr s' \<and> next_dref s \<le> next_dref s'
              \<and> dicts s' (children (nodes s self))
                  = AList.update item (next_addr s) (dicts s (children (nodes s self)))"
proof -
  from ready have P: "path (nodes s self) = Some P" and A: "anchor (nodes s self) = Some A"
    and py: "cls (nodes s self) = Py7zrArchivePath"
    and lt: "self < next_addr s" and cr: "children (nodes s self) < next_dref s"
    by (simp_all add: node_ready_def is_Py7zrArchivePath_def)
  have kw': "ia_kw = None
             \<or> (ia_kw = Some False \<and> is_ArchivePath c \<and> is_ArchivePath (cls (nodes s self))
                 \<and> anchor (nodes s self) = Some A)"
    using kw py A by (auto simp: is_ArchivePath_def)
  from construct_child_ok[OF P lt nm kw', of k be pt] obtain s1 where
    c: "construct (Suc (Suc k)) c item (Some self) be pt None ia_kw s = (Inr (next_addr s), s1)"
    by blast
  from construct_extends[OF c] have ext: "extends s s1" .
  then have self1: "nodes s1 self = nodes s self" and d1: "dicts s1 (children (nodes s self))
      = dicts s (children (nodes s self))"
    and t1: "terminal_obj s1 = terminal_obj s"
    and n1: "next_addr s \<le> next_addr s1" "next_dref s \<le> next_dref s1"
    using lt cr by (simp_all add: extends_def)
  let ?r = "children (nodes s self)"
  let ?s' = "s1\<lparr>dicts := (dicts s1)(?r := AList.update item (next_addr s) (dicts s1 ?r))\<rparr>"
  have "assign_item (Suc (Suc k)) self item (next_addr s) s1 = (Inr (), ?s')"
    using self1 py res by (simp add: assign_item_def is_DirPath_def DirPath_setitem_def Let_def)
  with c have "bnd (construct (Suc (Suc k)) c item (Some self) be pt None ia_kw)
                 (\<lambda>new. assign_item (Suc (Suc k)) self item new) s = (Inr (), ?s')"
    by (simp add: bnd_def)
  moreover have "nodes ?s' self = nodes s self" "terminal_obj ?s' = terminal_obj s"
    "next_addr s \<le> next_addr ?s'" "next_dref s \<le> next_dref ?s'"
    "dicts ?s' ?r = AList.update item (next_addr s) (dicts s ?r)"
    using self1 t1 n1 d1 by simp_all
  ultimately show ?thesis by blast
qed

lemma add_path_child:
  assumes ready: "node_ready s self P A" and tabs: "tables_ok (terminal_obj s)"
    and nm: "sep \<notin> set item" and res: "item \<noteq> ''.''" "item \<noteq> ''..''"
  shows "\<exists>s'. (if is_folder
               then Terminal_add_path (Suc (Suc k)) item True (Some ''7z'') ''text'' ''dir'' False
                      ''py7zr'' (Some self) (Some False)
               else Terminal_add_path (Suc (Suc k)) item False None ''text'' ''dir'' False
                      ''py7zr'' (Some self) None) s = (Inr (), s')
              \<and> nodes s' self = nodes s self \<and> terminal_obj s' = terminal_obj s
              \<and> next_addr s \<le> next_addr s' \<and> next_dref s \<le> next_dref s'
              \<and> dicts s' (children (nodes s self))
                  = AList.update item (next_addr s) (dicts s (children (nodes s self)))"
proof (cases is_folder)
  case True
  from tabs obtain c exts where look: "map_of (dir_map (terminal_obj s)) ''7z'' = Some (c, exts)"
    and arch: "is_ArchivePath c"
    by (auto simp: tables_ok_def split: option.splits)
  have "Terminal_add_path (Suc (Suc k)) item True (Some ''7z'') ''text'' ''dir'' False
          ''py7zr'' (Some self) (Some False) s
        = bnd (construct (Suc (Suc k)) c item (Some self) ''py7zr'' ''7z'' None (Some False))
            (\<lambda>new. assign_item (Suc (Suc k)) self item new) s"
    using look basename_id[OF nm] by (simp add: Terminal_add_path_def Let_def)
  with add_child_core[OF ready nm res, of "Some False" c k "''py7zr''" "''7z''"] arch True
  show ?thesis by simp
next
  case False
  let ?pt = "get_path_type (terminal_obj s) item False ''text'' ''dir''"
  from tabs have "''text'' \<in> fst ` set (file_map (terminal_obj s))" by (simp add: tables_ok_def)
  from get_path_type_known[OF this, of item "''dir''"] obtain c exts where
    look: "map_of (file_map (terminal_obj s)) ?pt = Some (c, exts)" by blast
  have "Terminal_add_path (Suc (Suc k)) item False None ''text'' ''dir'' False
          ''py7zr'' (Some self) None s
        = bnd (construct (Suc (Suc k)) c item (Some self) ''py7zr'' ?pt None None)
            (\<lambda>new. assign_item (Suc (Suc k)) self item new) s"
    using look basename_id[OF nm] by (simp add: Terminal_add_path_def Let_def)
  with add_child_core[OF ready nm res, of None c k "''py7zr''" ?pt] False
  show ?thesis by simp
qed


lemma register_children_ok:
  assumes "node_ready s self P A" and "tables_ok (terminal_obj s)"
    and "\<forall>x\<in>set xs. sep \<notin> set (fst x) \<and> fst x \<noteq> ''.'' \<and> fst x \<noteq> ''..''"
  shows "\<exists>s'. register_children (Suc (Suc k)) self xs s = (Inr (), s')
              \<and> node_ready s' self P A \<and> tables_ok (terminal_obj s')
              \<and> nodes s' self = nodes s self
              \<and> fst ` set (dicts s' (children (nodes s self)))
                  = fst ` set (dicts s (children (nodes s self))) \<union> fst ` set xs"
  using assms
proof (induction xs arbitrary: s)
  case Nil
  then show ?case by simp
next
  case (Cons x xs)
  obtain item info where x: "x = (item, info)" by (cases x)
  from Cons.prems(3) x have nm: "sep \<notin> set item" and res: "item \<noteq> ''.''" "item \<noteq> ''..''"
    and rest: "\<forall>x\<in>set xs. sep \<notin> set (fst x) \<and> fst x \<noteq> ''.'' \<and> fst x \<noteq> ''..''"
    by simp_all
  from Cons.prems(1) obtain c where ctx: "get_context s self = Some c"
    by (auto simp: node_ready_def get_context_def)
  let ?call = "if folder info = None
               then Terminal_add_path (Suc (Suc k)) item True (Some ''7z'') ''text'' ''dir'' False
                      ''py7zr'' (Some self) (Some False)
               else Terminal_add_path (Suc (Suc k)) item False None ''text'' ''dir'' False
                      ''py7zr'' (Some self) None"
  from add_path_child[OF Cons.prems(1,2) nm res, of "folder info = None" k] obtain s1 where
    call: "?call s = (Inr (), s1)"
    and self1: "nodes s1 self = nodes s self" and t1: "terminal_obj s1 = terminal_obj s"
    and n1: "next_addr s \<le> next_addr s1" "next_dref s \<le> next_dref s1"
    and d1: "dicts s1 (children (nodes s self))
               = AList.update item (next_addr s) (dicts s (children (nodes s self)))"
    by blast
  have ready1: "node_ready s1 self P A"
    using Cons.prems(1) self1 n1 by (simp add: node_ready_def)
  have tabs1: "tables_ok (terminal_obj s1)" using Cons.prems(2) t1 by simp
  from Cons.IH[OF ready1 tabs1 rest] obtain s' where
    loop: "register_children (Suc (Suc k)) self xs s1 = (Inr (), s')"
    and r': "node_ready s' self P A" "tables_ok (terminal_obj s')"
    and self': "nodes s' self = nodes s1 self"
    and keys': "fst ` set (dicts s' (children (nodes s1 self)))
                  = fst ` set (dicts s1 (children (nodes s1 self))) \<union> fst ` set xs"
    by blast
  have "register_children (Suc (Suc k)) self (x # xs) s = (Inr (), s')"
    using ctx call loop by (simp add: x bnd_def)
  moreover have "fst ` set (dicts s' (children (nodes s self)))
      = fst ` set (dicts s (children (nodes s self))) \<union> fst ` set (x # xs)"
    using keys' self1 d1 by (simp add: x AList.dom_update)
  ultimately show ?case using r' self' self1 by simp
qed

lemma filter_children_ok:
  assumes "path (nodes s self) = Some P" and "is_ArchivePath (cls (nodes s self))"
    and "anchor (nodes s self) = Some A"
  shows "\<exists>res. filter_children (Suc k) self files acc s = (Inr res, s)
               \<and> fst ` set res
                   = fst ` set acc
                     \<union> {basename (filename f) | f.
                          f \<in> set files \<and> spec_belongs P A f
                          \<and> basename (filename f)
                              \<notin> fst ` set (dicts s (children (nodes s self)))}"
proof (induction files arbitrary: acc)
  case Nil
  then show ?case by simp
next
  case (Cons f files)
  let ?K = "fst ` set (dicts s (children (nodes s self)))"
  let ?keep = "spec_belongs P A f \<and> basename (filename f) \<notin> ?K"
  let ?acc = "if ?keep then AList.update (basename (filename f)) f acc else acc"
  have step: "filter_children (Suc k) self (f # files) acc s
                = filter_children (Suc k) self files ?acc s"
    using assms
    by (simp add: bnd_def get_path_st_cached get_anchor_st_cached spec_belongs_def eq_commute
             del: get_path.simps get_anchor.simps)
  from Cons.IH[of ?acc] obtain res where
    r: "filter_children (Suc k) self files ?acc s = (Inr res, s)"
    and keys: "fst ` set res
                 = fst ` set ?acc
                   \<union> {basename (filename f) | f.
                        f \<in> set files \<and> spec_belongs P A f \<and> basename (filename f) \<notin> ?K}"
    by blast
  have "fst ` set ?acc = fst ` set acc \<union> (if ?keep then {basename (filename f)} else {})"
    by (simp add: AList.dom_update)
  with keys have "fst ` set res
      = fst ` set acc
        \<union> {basename (filename g) | g.
             g \<in> set (f # files) \<and> spec_belongs P A g \<and> basename (filename g) \<notin> ?K}"
    by (auto split: if_splits)
  with r step show ?case by simp
qed


lemma find_children_core:
  assumes opened: "ensure_archive (Suc (Suc k)) self s = (Inr (), s1)"
    and ar: "archive_file (nodes s1 self) = Some ar"
    and ready: "node_ready s1 self P A" and tabs: "tables_ok (terminal_obj s1)"
    and names: "\<forall>f\<in>set (files_info ar).
                  spec_belongs P A f \<longrightarrow>
                    basename (filename f) \<noteq> ''.'' \<and> basename (filename f) \<noteq> ''..''"
  shows "\<exists>s'. find_children (Suc (Suc k)) self s = (Inr (), s')
              \<and> node_ready s' self P A \<and> nodes s' self = nodes s1 self
              \<and> fst ` set (dicts s' (children (nodes s1 self)))
                  = fst ` set (dicts s1 (children (nodes s1 self)))
                    \<union> {basename (filename f) | f. f \<in> set (files_info ar) \<and> spec_belongs P A f}"
proof -
  let ?K = "fst ` set (dicts s1 (children (nodes s1 self)))"
  from ready have P: "path (nodes s1 self) = Some P" and A: "anchor (nodes s1 self) = Some A"
    and arch: "is_ArchivePath (cls (nodes s1 self))"
    by (simp_all add: node_ready_def is_Py7zrArchivePath_def is_ArchivePath_def)
  from filter_children_ok[OF P arch A, of "Suc k" "files_info ar" "[]"] obtain res where
    f: "filter_children (Suc (Suc k)) self (files_info ar) [] s1 = (Inr res, s1)"
    and keys: "fst ` set res
                 = {basename (filename f) | f.
                      f \<in> set (files_info ar) \<and> spec_belongs P A f \<and> basename (filename f) \<notin> ?K}"
    by auto
  have ok: "\<forall>x\<in>set res. sep \<notin> set (fst x) \<and> fst x \<noteq> ''.'' \<and> fst x \<noteq> ''..''"
  proof
    fix x assume "x \<in> set res"
    then have "fst x \<in> fst ` set res" by (rule imageI)
    with keys obtain g where g: "fst x = basename (filename g)" "g \<in> set (files_info ar)"
      "spec_belongs P A g" by auto
    with names basename_no_sep[of "filename g"]
    show "sep \<notin> set (fst x) \<and> fst x \<noteq> ''.'' \<and> fst x \<noteq> ''..''" by auto
  qed
  from register_children_ok[OF ready tabs ok, of k] obtain s' where
    r: "register_children (Suc (Suc k)) self res s1 = (Inr (), s')"
    and r': "node_ready s' self P A" "nodes s' self = nodes s1 self"
    and keys': "fst ` set (dicts s' (children (nodes s1 self))) = ?K \<union> fst ` set res"
    by blast
  have "find_children (Suc (Suc k)) self s = (Inr (), s')"
    using opened ar f r by (simp add: find_children_def bnd_def)
  moreover have "?K \<union> fst ` set res
      = ?K \<union> {basename (filename f) | f. f \<in> set (files_info ar) \<and> spec_belongs P A f}"
    unfolding keys by blast
  ultimately show ?thesis using r' keys' by auto
qed


text \<open>
  C6, as amended: under the same conditions, where the first call ends with the archive
  open, a second call of \<open>find_children\<close> returns normally and leaves the whole store,
  the children of the node included, exactly as the first call left it.
\<close>

theorem second_find_children_changes_nothing:
  assumes "ensure_archive (Suc (Suc k)) self s = (Inr (), s1)"
    and "archive_file (nodes s1 self) = Some ar"
    and "node_ready s1 self P A" and "tables_ok (terminal_obj s1)"
    and "\<forall>f\<in>set (files_info ar).
            spec_belongs P A f \<longrightarrow>
              basename (filename f) \<noteq> ''.'' \<and> basename (filename f) \<noteq> ''..''"
  shows "\<exists>s'. find_children (Suc (Suc k)) self s = (Inr (), s')
              \<and> find_children (Suc (Suc k)) self s' = (Inr (), s')"
proof -
  from find_children_core[OF assms] obtain s' where
    f: "find_children (Suc (Suc k)) self s = (Inr (), s')"
    and ready': "node_ready s' self P A"
    and self': "nodes s' self = nodes s1 self"
    and keys: "fst ` set (dicts s' (children (nodes s1 self)))
                  = fst ` set (dicts s1 (children (nodes s1 self)))
                    \<union> {basename (filename f) | f. f \<in> set (files_info ar) \<and> spec_belongs P A f}"
    by blast
  have ar': "archive_file (nodes s' self) = Some ar" using assms(2) self' by simp
  then have e: "ensure_archive (Suc (Suc k)) self s' = (Inr (), s')"
    by (simp add: ensure_archive_def)
  from ready' have P: "path (nodes s' self) = Some P" and A: "anchor (nodes s' self) = Some A"
    and arch: "is_ArchivePath (cls (nodes s' self))"
    by (simp_all add: node_ready_def is_Py7zrArchivePath_def is_ArchivePath_def)
  from filter_children_ok[OF P arch A, of "Suc k" "files_info ar" "[]"] obtain res where
    fl: "filter_children (Suc (Suc k)) self (files_info ar) [] s' = (Inr res, s')"
    and rk: "fst ` set res
               = {basename (filename f) | f.
                    f \<in> set (files_info ar) \<and> spec_belongs P A f
                    \<and> basename (filename f) \<notin> fst ` set (dicts s' (children (nodes s' self)))}"
    by auto
  have "fst ` set res = {}" unfolding rk self' keys by blast
  then have "res = []" by simp
  with e ar' fl have "find_children (Suc (Suc k)) self s' = (Inr (), s')"
    by (simp add: find_children_def bnd_def)
  with f show ?thesis by blast
qed

subsection \<open>Further worked examples\<close>

lemma full_world_nodes:
  "nodes full_world 2 =
      \<lparr>cls = Py7zrArchivePath, name = ''a'', parent = Some 1, backend = ''py7zr'',
            path_type = ''7z'', path = Some ''/root/a'', context_list = Some 0, children = 2,
            is_anchor = False, anchor = Some ''/root'', child_data = [], archive_file = None\<rparr>"
  by (simp add: full_world_def archive_world_eval)

text \<open>
  The folder \<open>a\<close> of the archive, an archive directory with the parent \<open>/root\<close>, with a
  children dict that holds entries under both reserved keys: item access and \<open>get\<close>
  return the folder itself and its parent, not the entries.
\<close>

theorem getitem_dot_and_dotdot_witness:
  "DirPath_getitem crowded_folder 2 ''.'' = Inr (Some 2)
   \<and> DirPath_getitem crowded_folder 2 ''..'' = Inr (Some 1)
   \<and> DirPath_get crowded_folder 2 ''.'' = Inr (Some 2)
   \<and> DirPath_get crowded_folder 2 ''..'' = Inr (Some 1)
   \<and> cls (nodes crowded_folder 2) = Py7zrArchivePath
   \<and> parent (nodes crowded_folder 2) = Some 1
   \<and> dicts crowded_folder (children (nodes crowded_folder 2)) = [(''.'', 0), (''..'', 0)]"
  using getitem_dot_and_dotdot [of crowded_folder 2]
  by (simp add: crowded_folder_def full_world_nodes)

lemma dotted_world_eval:
  "nodes dotted_world 0 =
     \<lparr>cls = DirPath, name = ''a'', parent = None, backend = ''fs'', path_type = ''dir'',
        path = Some ''/home/user/a'', context_list = None, children = 0, is_anchor = False,
        anchor = None, child_data = [], archive_file = None\<rparr>"
  "nodes dotted_world (Suc 0) =
     \<lparr>cls = DirPath, name = ''b'', parent = None, backend = ''fs'', path_type = ''dir'',
        path = Some ''/home/user/b'', context_list = None, children = 1, is_anchor = False,
        anchor = None, child_data = [], archive_file = None\<rparr>"
  "dicts dotted_world 0 = []" "dicts dotted_world (Suc 0) = [(''.'', 0)]"
  by (simp_all add: dotted_world_def eval_defs posix_defs)

text \<open>
  Where C9 fails as stated: the constructor takes its \<open>children\<close> argument as it is, so
  \<open>b = DirPath('/home/user/b', children={'.': a})\<close> holds the key \<open>.\<close>. The directory
  \<open>a\<close> was built without children and iterates over nothing; after the one assignment
  \<open>a['.'] = b\<close>, which shares the dict of \<open>b\<close> with \<open>a\<close>, the iteration, the containment
  test and the size of \<open>a\<close> include \<open>.\<close>.
\<close>

theorem absorbing_a_dotted_directory:
  "DirPath_iter dotted_world 0 = []
   \<and> fst dotted_run = Inr ()
   \<and> DirPath_iter (snd dotted_run) 0 = [''.'']
   \<and> DirPath_contains (snd dotted_run) 0 ''.''
   \<and> DirPath_len (snd dotted_run) 0 = 1"
  by (simp add: dotted_run_def DirPath_setitem_def DirPath_absorb_def Path_absorb_def
        DirPath_iter_def DirPath_contains_def DirPath_len_def dotted_world_eval
        bnd_def get_path_st_cached get_name_def get_parent_def get_type_def get_children_def
        is_DirPath_def del: get_path.simps)



lemma belongs_eval:
  "spec_belongs ''/root/a'' ''/root'' \<lparr>filename = ''a'', folder = None\<rparr> = False"
  "spec_belongs ''/root/a'' ''/root'' \<lparr>filename = ''a/b.txt'', folder = Some 0\<rparr> = True"
  "spec_belongs ''/root/a'' ''/root'' \<lparr>filename = ''a/c'', folder = None\<rparr> = True"
  "spec_belongs ''/root/a'' ''/root'' \<lparr>filename = ''a/c/d.txt'', folder = Some 0\<rparr> = False"
  "spec_belongs ''/root'' ''/root'' \<lparr>filename = ''a'', folder = None\<rparr> = True"
  "spec_belongs ''/root'' ''/root'' \<lparr>filename = ''a/b.txt'', folder = Some 0\<rparr> = False"
  "spec_belongs ''/root'' ''/root'' \<lparr>filename = ''a/c'', folder = None\<rparr> = False"
  "spec_belongs ''/root'' ''/root'' \<lparr>filename = ''a/c/d.txt'', folder = Some 0\<rparr> = False"
  by (simp_all add: spec_belongs_def posix_defs)

lemma basename_eval:
  "basename ''a'' = ''a''" "basename ''a/b.txt'' = ''b.txt''" "basename ''a/c'' = ''c''"
  "basename ''a/c/d.txt'' = ''d.txt''"
  by (simp_all add: posix_defs)

lemma belonging_names:
  "{basename (filename f) | f. f \<in> set fs \<and> Q f}
     = set (map (\<lambda>f. basename (filename f)) (filter Q fs))"
  by auto

lemma plain_world_anchor_opens:
  "get_archive_file (Suc 0) 1 (archive_world (plain_opener ar) ans)
     = (Inr (Some ar), archive_world (plain_opener ar) ans)"
  by (simp add: archive_world_eval Let_def is_Py7zrArchivePath_def
        get_is_anchor_def get_parent_def get_backend_def bnd_def get_path_st_cached
        open_archive_def plain_opener_def del: get_path.simps)

lemma plain_world_folder_opens:
  "get_archive_file (Suc (Suc 0)) 2 (archive_world (plain_opener ar) ans)
     = (Inr (Some ar), archive_world (plain_opener ar) ans)"
proof -
  have "get_archive_file (Suc (Suc 0)) 2 (archive_world (plain_opener ar) ans)
          = get_archive_file (Suc 0) 1 (archive_world (plain_opener ar) ans)"
    by (simp add: archive_world_eval Let_def is_Py7zrArchivePath_def
        get_is_anchor_def del: get_archive_file.simps(2))
       (simp add: archive_world_eval Let_def is_Py7zrArchivePath_def get_is_anchor_def)
  then show ?thesis by (simp only: plain_world_anchor_opens)
qed

lemma plain_world_ensure:
  "ensure_archive (Suc (Suc 0)) 2 (archive_world (plain_opener ar) ans)
     = (Inr (), upd 2 (\<lambda>n. n\<lparr>archive_file := Some ar\<rparr>) (archive_world (plain_opener ar) ans))"
  by (simp add: ensure_archive_def bnd_def plain_world_folder_opens archive_world_eval
        del: get_archive_file.simps)

lemma plain_world_ready:
  "archive_file (nodes (upd 2 (\<lambda>n. n\<lparr>archive_file := Some ar\<rparr>)
      (archive_world (plain_opener ar) ans)) 2) = Some ar"
  "node_ready (upd 2 (\<lambda>n. n\<lparr>archive_file := Some ar\<rparr>) (archive_world (plain_opener ar) ans))
     2 ''/root/a'' ''/root''"
  "tables_ok (terminal_obj (upd 2 (\<lambda>n. n\<lparr>archive_file := Some ar\<rparr>)
      (archive_world (plain_opener ar) ans)))"
  "dicts (upd 2 (\<lambda>n. n\<lparr>archive_file := Some ar\<rparr>) (archive_world (plain_opener ar) ans))
     (children (nodes (upd 2 (\<lambda>n. n\<lparr>archive_file := Some ar\<rparr>)
        (archive_world (plain_opener ar) ans)) 2)) = []"
  by (simp_all add: archive_world_eval node_ready_def is_Py7zrArchivePath_def tables_ok_def
        main_terminal_def default_terminal_def is_ArchivePath_def)


lemma full_names:
  "\<forall>f\<in>set (files_info full_archive).
     spec_belongs ''/root/a'' ''/root'' f \<longrightarrow>
       basename (filename f) \<noteq> ''.'' \<and> basename (filename f) \<noteq> ''..''"
  "{basename (filename f) | f.
      f \<in> set (files_info full_archive) \<and> spec_belongs ''/root/a'' ''/root'' f}
     = {''b.txt'', ''c''}"
  unfolding belonging_names
  by (simp_all add: full_archive_def belongs_eval basename_eval)






text \<open>
  On that node, the second call of \<open>find_children\<close> returns the store of the first.
\<close>

theorem second_find_children_changes_nothing_witness:
  "fst full_listed = Inr () \<and> full_listed_twice = (Inr (), snd full_listed)"
proof -
  let ?w = "archive_world (plain_opener full_archive) (\<lambda>i. [])"
  from second_find_children_changes_nothing [OF plain_world_ensure [where ans = "\<lambda>i. []"]
      plain_world_ready(1,2,3) full_names(1)]
  obtain s' where f: "find_children (Suc (Suc 0)) 2 ?w = (Inr (), s')"
    and g: "find_children (Suc (Suc 0)) 2 s' = (Inr (), s')"
    by (elim exE conjE) (rule that; assumption)
  from f have l: "full_listed = (Inr (), s')"
    by (simp only: full_listed_def full_world_def)
  show ?thesis unfolding full_listed_twice_def l fst_conv snd_conv using g by simp
qed

end
